theory Spec2Isabelle
  imports Complex_Main
begin

section \<open>Force matching (csg\_fmatch): data model\<close>

text \<open>
  The engine \<open>CGForceMatching\<close> of \<open>src/unnamed/part_000\<close> is embedded with explicit
  state passing. Conventions:
  \<^item> a C++ \<open>double\<close> is a \<open>real\<close> (exact arithmetic, no rounding). Where the source
    itself divides by a run-time integer (\<open>EndCG\<close>), the quotient is an \<open>fval\<close>, which
    has one extra value for the non-finite doubles (infinities and NaN) that IEEE
    division by zero produces;
  \<^item> a C++ \<open>int\<close> counter is an \<open>int\<close>. Every counter is bounded by the dimension of a
    dense matrix that the same function allocates, so no counter reaches \<open>2^31\<close>;
  \<^item> the classes \<open>CubicSpline\<close>, \<open>Topology\<close>, \<open>NBList\<close> and the GSL routines are not
    among the sources. What the engine calls on them is a parameter (\<open>spline_ops\<close>,
    \<open>gsl_ops\<close>) or a field of the frame handed to \<open>EvalConfiguration\<close>.
\<close>

datatype fval = Finite real | NonFinite

definition fdiv :: "real \<Rightarrow> int \<Rightarrow> fval" where
  \<comment> \<open>a \<open>double\<close> divided by an \<open>int\<close>\<close>
  "fdiv a k = (if k = 0 then NonFinite else Finite (a / real_of_int k))"

fun fmul :: "fval \<Rightarrow> fval \<Rightarrow> fval" where
  "fmul (Finite a) (Finite c) = Finite (a * c)"
| "fmul _ _ = NonFinite"

fun fsub :: "fval \<Rightarrow> fval \<Rightarrow> fval" where
  "fsub (Finite a) (Finite c) = Finite (a - c)"
| "fsub _ _ = NonFinite"

fun fsqrt :: "fval \<Rightarrow> fval" where
  "fsqrt (Finite a) = (if a < 0 then NonFinite else Finite (sqrt a))"
| "fsqrt NonFinite = NonFinite"

fun fneg :: "fval \<Rightarrow> fval" where
  "fneg (Finite a) = Finite (- a)"
| "fneg NonFinite = NonFinite"

type_synonym vec = "real \<times> real \<times> real"

fun vx :: "vec \<Rightarrow> real" where "vx (a, c, d) = a"
fun vy :: "vec \<Rightarrow> real" where "vy (a, c, d) = c"
fun vz :: "vec \<Rightarrow> real" where "vz (a, c, d) = d"

text \<open>A dense \<open>ub::matrix<double>\<close>: its two sizes and its entries.\<close>

record matrix =
  size1 :: nat
  size2 :: nat
  elem :: "nat \<Rightarrow> nat \<Rightarrow> real"

definition mresize :: "nat \<Rightarrow> nat \<Rightarrow> (nat \<Rightarrow> nat \<Rightarrow> real) \<Rightarrow> matrix" where
  \<comment> \<open>\<open>M.resize(r, c, false)\<close>: the old entries are not preserved and the new ones are
      not initialised; \<open>junk\<close> is whatever the fresh storage holds.\<close>
  "mresize r c junk = \<lparr>size1 = r, size2 = c, elem = junk\<rparr>"

definition mclear :: "matrix \<Rightarrow> matrix" where
  "mclear M = M\<lparr>elem := (\<lambda>i j. 0)\<rparr>"

definition madd :: "matrix \<Rightarrow> nat \<Rightarrow> nat \<Rightarrow> real \<Rightarrow> matrix" where
  \<comment> \<open>\<open>M(i, j) += v\<close>\<close>
  "madd M i j v = M\<lparr>elem := (elem M)(i := (elem M i)(j := elem M i j + v))\<rparr>"

record CubicSpline =
  grid :: "real list"
  spline_data :: "fval list"

record spline_ops =
  GenerateGrid :: "real \<Rightarrow> real \<Rightarrow> real \<Rightarrow> real list"
  getGridPoint :: "CubicSpline \<Rightarrow> int \<Rightarrow> real"
  Calculate :: "CubicSpline \<Rightarrow> real \<Rightarrow> real"
  fit_basis :: "CubicSpline \<Rightarrow> real \<Rightarrow> (nat \<times> real) list"
  AddBCToFitMatrix :: "CubicSpline \<Rightarrow> matrix \<Rightarrow> int \<Rightarrow> int \<Rightarrow> matrix"

record topology_ops =
  normalize :: "vec \<Rightarrow> vec"

record gsl_ops =
  QR_decomp :: "matrix \<Rightarrow> matrix \<times> real list"
  QR_lssolve :: "matrix \<Rightarrow> real list \<Rightarrow> real list \<Rightarrow> real list"

definition setSplineData :: "CubicSpline \<Rightarrow> fval list \<Rightarrow> CubicSpline" where
  "setSplineData sp d = sp\<lparr>spline_data := d\<rparr>"

definition AddToFitMatrix ::
  "spline_ops \<Rightarrow> CubicSpline \<Rightarrow> matrix \<Rightarrow> real \<Rightarrow> int \<Rightarrow> int \<Rightarrow> real \<Rightarrow> matrix" where
  \<comment> \<open>Modelled from the spec: \<open>CubicSpline::AddToFitMatrix\<close> is not among the sources.
      It adds the basis contribution at \<open>var\<close>, scaled by \<open>scale\<close>, into row \<open>row\<close> at the
      columns counted from \<open>mpos\<close>; the basis values themselves are the parameter
      \<open>fit_basis\<close>.\<close>
  "AddToFitMatrix ops sp M var row mpos scale =
     fold (\<lambda>(c, w) M'. madd M' (nat row) (nat (mpos + int c)) (w * scale))
          (fit_basis ops sp var) M"

text \<open>One interaction of the options file (\<open>Property *options\<close>).\<close>

record Property =
  opt_name :: string
  opt_type1 :: string
  opt_type2 :: string
  fmatch_min :: real
  fmatch_max :: real
  fmatch_step :: real
  fmatch_res_output_coeff :: int

record SplineInfo =
  splineIndex :: int
  bonded :: bool
  splineName :: string
  type1 :: string
  type2 :: string
  options :: Property
  n :: int
  matr_pos :: int
  res_output_coeff :: int
  result :: "fval list"
  error :: "fval list"
  resSum :: "real list"
  resSum2 :: "real list"
  block_res :: "real list"
  del_x_out :: real
  Spline :: CubicSpline

definition SplineInfo_new :: "spline_ops \<Rightarrow> int \<Rightarrow> bool \<Rightarrow> int \<Rightarrow> Property \<Rightarrow> SplineInfo" where
  \<comment> \<open>The constructor. \<open>GenerateGrid\<close> returns the number of grid points it made.
      \<open>del_x_out\<close> is only read inside loops that run \<open>res_output_coeff * (n + 1)\<close>
      times, so the divisor is positive wherever the quotient is used.\<close>
  "SplineInfo_new ops index bonded' matr_pos' opts =
     (let g = GenerateGrid ops (fmatch_min opts) (fmatch_max opts) (fmatch_step opts);
          sp = \<lparr>grid = g, spline_data = []\<rparr>;
          n' = int (length g) - 1;
          roc = fmatch_res_output_coeff opts;
          len = nat (roc * (n' + 1))
      in \<lparr>splineIndex = index, bonded = bonded', splineName = opt_name opts,
          type1 = (if bonded' then [] else opt_type1 opts),
          type2 = (if bonded' then [] else opt_type2 opts),
          options = opts, n = n', matr_pos = matr_pos', res_output_coeff = roc,
          result = replicate len (Finite 0), error = replicate len (Finite 0),
          resSum = replicate len 0, resSum2 = replicate len 0,
          block_res = replicate (nat (2 * (n' + 1))) 0,
          del_x_out = (getGridPoint ops sp n' - getGridPoint ops sp 0)
                        / real_of_int (roc * (n' + 1)),
          Spline = sp\<rparr>)"

text \<open>What the engine prints on standard output, item by item.\<close>

datatype out_item = Text string | Num real | NumF fval | IntNum int

record fm_state =
  BlockNum :: int
  line_cntr :: int
  col_cntr :: int
  N_frames :: int
  ConstrLeastSQ :: bool
  Splines :: "SplineInfo list"
  N :: int
  L :: int
  LeastSQOffset :: int
  B_constr :: matrix
  A_mat :: matrix
  b_vec :: "real list"
  x_vec :: "real list"
  cout :: "out_item list"

section \<open>BeginCG\<close>

fun register_splines :: "spline_ops \<Rightarrow> bool \<Rightarrow> Property list \<Rightarrow> fm_state \<Rightarrow> fm_state" where
  "register_splines ops bd [] st = st"
| "register_splines ops bd (p # ps) st =
     (let i = SplineInfo_new ops (int (length (Splines st))) bd (col_cntr st) p
      in register_splines ops bd ps
           (st\<lparr>line_cntr := line_cntr st + (n i + 1),
               col_cntr := col_cntr st + 2 * (n i + 1),
               Splines := Splines st @ [i]\<rparr>))"

fun smooth_conds_loop :: "spline_ops \<Rightarrow> SplineInfo list \<Rightarrow> int \<Rightarrow> int \<Rightarrow> matrix \<Rightarrow> matrix" where
  "smooth_conds_loop ops [] line_tmp col_tmp M = M"
| "smooth_conds_loop ops (s # ss) line_tmp col_tmp M =
     smooth_conds_loop ops ss (line_tmp + (n s + 1)) (col_tmp + 2 * (n s + 1))
       (AddBCToFitMatrix ops (Spline s) M line_tmp col_tmp)"

definition FmatchAssignSmoothCondsToMatrix :: "spline_ops \<Rightarrow> SplineInfo list \<Rightarrow> matrix \<Rightarrow> matrix" where
  "FmatchAssignSmoothCondsToMatrix ops ss M = smooth_conds_loop ops ss 0 0 (mclear M)"

text \<open>
  The run's configuration: the two option values read by \<open>BeginCG\<close>, the bonded and the
  non-bonded interactions selected by \<open>LoadOptions\<close>, the bead count of the topology, and
  the contents of the storage that \<open>resize\<close> leaves uninitialised.
\<close>

record fm_config =
  frames_per_block :: int
  constrainedLS :: bool
  cfg_bonded :: "Property list"
  cfg_nonbonded :: "Property list"
  BeadCount :: int
  junk :: "nat \<Rightarrow> nat \<Rightarrow> real"
  junk_b :: "nat \<Rightarrow> real"

definition BeginCG :: "spline_ops \<Rightarrow> fm_config \<Rightarrow> fm_state \<Rightarrow> fm_state" where
  "BeginCG ops cfg st0 =
     (let st1 = st0\<lparr>BlockNum := 0, line_cntr := 0, col_cntr := 0,
                    N_frames := frames_per_block cfg, ConstrLeastSQ := constrainedLS cfg\<rparr>;
          st2 = register_splines ops True (cfg_bonded cfg) st1;
          st3 = register_splines ops False (cfg_nonbonded cfg) st2;
          st4 = st3\<lparr>N := BeadCount cfg, L := 0,
                    cout := cout st3 @ [Text ''You are using VOTCA!'',
                                        Text ''hey, somebody wants to forcematch!'']\<rparr>;
          rows = 3 * N st4 * N_frames st4;
          st5 = (if ConstrLeastSQ st4 then
                   st4\<lparr>cout := cout st4 @ [Text ''Using constrained Least Squares!''],
                       LeastSQOffset := 0,
                       B_constr := FmatchAssignSmoothCondsToMatrix ops (Splines st4)
                          (mclear (mresize (nat (line_cntr st4)) (nat (col_cntr st4)) (junk cfg))),
                       A_mat := mresize (nat rows) (nat (col_cntr st4)) (junk cfg),
                       b_vec := map (junk_b cfg) [0..<nat rows]\<rparr>
                 else
                   st4\<lparr>cout := cout st4 @ [Text ''Using simple Least Squares!''],
                       LeastSQOffset := line_cntr st4,
                       A_mat := FmatchAssignSmoothCondsToMatrix ops (Splines st4)
                          (mresize (nat (line_cntr st4 + rows)) (nat (col_cntr st4)) (junk cfg)),
                       b_vec := replicate (nat (line_cntr st4 + rows)) 0\<rparr>)
      in st5\<lparr>x_vec := replicate (nat (col_cntr st5)) 0\<rparr>)"

section \<open>Sampling one frame\<close>

text \<open>
  A frame is the \<open>Topology *conf\<close> handed to \<open>EvalConfiguration\<close>: whether bead 0 has a
  force, the force of each bead, the bonded interactions of a group (each with the value
  of its variable and, per participating bead, the bead id and the gradient), and the
  pairs the neighbour list finds for a cutoff and one or two bead types.
\<close>

record Interaction =
  EvaluateVar :: real
  int_beads :: "(int \<times> vec) list"

record pair =
  first_id :: int
  second_id :: int
  dist :: real
  pair_r :: vec

record frame =
  HasF :: bool
  getF :: "int \<Rightarrow> vec"
  InteractionsInGroup :: "string \<Rightarrow> Interaction list"
  NBL_one_type :: "real \<Rightarrow> string \<Rightarrow> pair list"
  NBL_two_types :: "real \<Rightarrow> string \<Rightarrow> string \<Rightarrow> pair list"

fun bonded_beads ::
  "spline_ops \<Rightarrow> fm_state \<Rightarrow> SplineInfo \<Rightarrow> real \<Rightarrow> (int \<times> vec) list \<Rightarrow> matrix \<Rightarrow> matrix" where
  "bonded_beads ops st sinfo var [] M = M"
| "bonded_beads ops st sinfo var ((ii, gradient) # rest) M =
     (let base = LeastSQOffset st + 3 * N st * L st;
          M1 = AddToFitMatrix ops (Spline sinfo) M var (base + ii) (matr_pos sinfo) (vx gradient);
          M2 = AddToFitMatrix ops (Spline sinfo) M1 var (base + N st + ii) (matr_pos sinfo) (vy gradient);
          M3 = AddToFitMatrix ops (Spline sinfo) M2 var (base + 2 * N st + ii) (matr_pos sinfo) (vz gradient)
      in bonded_beads ops st sinfo var rest M3)"

fun bonded_loop ::
  "spline_ops \<Rightarrow> fm_state \<Rightarrow> SplineInfo \<Rightarrow> Interaction list \<Rightarrow> matrix \<Rightarrow> matrix" where
  "bonded_loop ops st sinfo [] M = M"
| "bonded_loop ops st sinfo (ia # rest) M =
     bonded_loop ops st sinfo rest (bonded_beads ops st sinfo (EvaluateVar ia) (int_beads ia) M)"

definition EvalBonded :: "spline_ops \<Rightarrow> fm_state \<Rightarrow> frame \<Rightarrow> SplineInfo \<Rightarrow> fm_state" where
  "EvalBonded ops st conf sinfo =
     st\<lparr>A_mat := bonded_loop ops st sinfo (InteractionsInGroup conf (splineName sinfo)) (A_mat st)\<rparr>"

text \<open>
  The six calls of \<open>AddToFitMatrix\<close> that \<open>EvalNonbonded\<close> makes for one pair, as
  (row, column offset, scale): three for \<open>iatom\<close>, then three for \<open>jatom\<close>.
\<close>

definition iatom_calls :: "fm_state \<Rightarrow> SplineInfo \<Rightarrow> int \<Rightarrow> vec \<Rightarrow> (int \<times> int \<times> real) list" where
  "iatom_calls st sinfo iatom gradient =
     (let base = LeastSQOffset st + 3 * N st * L st in
      [(base + iatom, matr_pos sinfo, vx gradient),
       (base + N st + iatom, matr_pos sinfo, vy gradient),
       (base + 2 * N st + iatom, matr_pos sinfo, vz gradient)])"

definition jatom_calls :: "fm_state \<Rightarrow> SplineInfo \<Rightarrow> int \<Rightarrow> vec \<Rightarrow> (int \<times> int \<times> real) list" where
  "jatom_calls st sinfo jatom gradient =
     (let base = LeastSQOffset st + 3 * N st * L st in
      [(base + jatom, matr_pos sinfo, - vx gradient),
       (base + N st + jatom, matr_pos sinfo, - vy gradient),
       (base + 2 * N st + jatom, matr_pos sinfo, - vz gradient)])"

definition fit_calls ::
  "spline_ops \<Rightarrow> CubicSpline \<Rightarrow> real \<Rightarrow> (int \<times> int \<times> real) list \<Rightarrow> matrix \<Rightarrow> matrix" where
  "fit_calls ops sp var calls M =
     fold (\<lambda>(row, mpos, scale) M'. AddToFitMatrix ops sp M' var row mpos scale) calls M"

fun nonbonded_loop ::
  "spline_ops \<Rightarrow> topology_ops \<Rightarrow> fm_state \<Rightarrow> SplineInfo \<Rightarrow> pair list \<Rightarrow> matrix \<Rightarrow> matrix" where
  "nonbonded_loop ops tops st sinfo [] M = M"
| "nonbonded_loop ops tops st sinfo (pr # rest) M =
     (let iatom = first_id pr; jatom = second_id pr; var = dist pr;
          gradient = normalize tops (pair_r pr);
          M1 = fit_calls ops (Spline sinfo) var (iatom_calls st sinfo iatom gradient) M;
          M2 = fit_calls ops (Spline sinfo) var (jatom_calls st sinfo jatom gradient) M1
      in nonbonded_loop ops tops st sinfo rest M2)"

definition EvalNonbonded ::
  "spline_ops \<Rightarrow> topology_ops \<Rightarrow> fm_state \<Rightarrow> frame \<Rightarrow> SplineInfo \<Rightarrow> fm_state" where
  "EvalNonbonded ops tops st conf sinfo =
     (let cutoff = fmatch_max (options sinfo);
          NBL = (if type1 sinfo = type2 sinfo then NBL_one_type conf cutoff (type1 sinfo)
                 else NBL_two_types conf cutoff (type1 sinfo) (type2 sinfo))
      in st\<lparr>A_mat := nonbonded_loop ops tops st sinfo NBL (A_mat st)\<rparr>)"

fun eval_splines ::
  "spline_ops \<Rightarrow> topology_ops \<Rightarrow> frame \<Rightarrow> SplineInfo list \<Rightarrow> fm_state \<Rightarrow> fm_state" where
  "eval_splines ops tops conf [] st = st"
| "eval_splines ops tops conf (sinfo # rest) st =
     eval_splines ops tops conf rest
       (if bonded sinfo then EvalBonded ops st conf sinfo
        else EvalNonbonded ops tops st conf sinfo)"

fun forces_loop :: "fm_state \<Rightarrow> frame \<Rightarrow> nat \<Rightarrow> real list \<Rightarrow> real list" where
  \<comment> \<open>\<open>for (iatom = 0; iatom < N; ++iatom)\<close>, the first \<open>k\<close> iterations.\<close>
  "forces_loop st conf 0 bv = bv"
| "forces_loop st conf (Suc k) bv =
     (let bv' = forces_loop st conf k bv;
          iatom = int k;
          Force = getF conf iatom;
          base = LeastSQOffset st + 3 * N st * L st
      in bv'[nat (base + iatom) := vx Force,
             nat (base + N st + iatom) := vy Force,
             nat (base + 2 * N st + iatom) := vz Force])"

section \<open>FmatchAccumulateData\<close>

definition trans_mat :: "matrix \<Rightarrow> matrix" where
  "trans_mat M = \<lparr>size1 = size2 M, size2 = size1 M, elem = (\<lambda>i j. elem M j i)\<rparr>"

definition identity_matrix :: "nat \<Rightarrow> matrix" where
  "identity_matrix c = \<lparr>size1 = c, size2 = c, elem = (\<lambda>i j. if i = j then 1 else 0)\<rparr>"

definition outer_prod :: "nat \<Rightarrow> (nat \<Rightarrow> real) \<Rightarrow> (nat \<Rightarrow> real) \<Rightarrow> matrix" where
  "outer_prod c v w = \<lparr>size1 = c, size2 = c, elem = (\<lambda>i j. v i * w j)\<rparr>"

definition mscale :: "real \<Rightarrow> matrix \<Rightarrow> matrix" where
  "mscale t M = M\<lparr>elem := (\<lambda>i j. t * elem M i j)\<rparr>"

definition mminus :: "matrix \<Rightarrow> matrix \<Rightarrow> matrix" where
  "mminus M M' = M\<lparr>elem := (\<lambda>i j. elem M i j - elem M' i j)\<rparr>"

definition prec_prod :: "matrix \<Rightarrow> matrix \<Rightarrow> matrix" where
  "prec_prod M M' = \<lparr>size1 = size1 M, size2 = size2 M',
                      elem = (\<lambda>i j. \<Sum>k<size2 M. elem M i k * elem M' k j)\<rparr>"

definition prec_prod_vec :: "matrix \<Rightarrow> real list \<Rightarrow> real list" where
  "prec_prod_vec M xs = map (\<lambda>i. \<Sum>j<size2 M. elem M i j * xs ! j) [0..<size1 M]"

definition householder_v :: "matrix \<Rightarrow> nat \<Rightarrow> nat \<Rightarrow> real" where
  \<comment> \<open>The vector \<open>v\<close> after the three inner loops of iteration \<open>k\<close>: zero below index
      \<open>k - 1\<close>, one at \<open>k - 1\<close>, and column \<open>k - 1\<close> of the factorised matrix from \<open>k\<close> on.\<close>
  "householder_v B_t k icout =
     (if icout + 1 < k then 0 else if icout + 1 = k then 1 else elem B_t icout (k - 1))"

definition Q_k :: "nat \<Rightarrow> matrix \<Rightarrow> real list \<Rightarrow> nat \<Rightarrow> matrix" where
  "Q_k c B_t tau k =
     (let v = householder_v B_t k; tmp = tau ! (k - 1)
      in mminus (identity_matrix c) (mscale tmp (outer_prod c v v)))"

fun Q_loop :: "nat \<Rightarrow> matrix \<Rightarrow> real list \<Rightarrow> nat \<Rightarrow> matrix \<Rightarrow> matrix" where
  \<comment> \<open>\<open>for (k = line_cntr; k > 0; k--) Q = prec_prod(Q, Q_k)\<close>\<close>
  "Q_loop c B_t tau 0 Q = Q"
| "Q_loop c B_t tau (Suc k') Q = Q_loop c B_t tau k' (prec_prod Q (Q_k c B_t tau (Suc k')))"

definition extract_Q :: "nat \<Rightarrow> nat \<Rightarrow> matrix \<Rightarrow> real list \<Rightarrow> matrix" where
  "extract_Q c l B_t tau = trans_mat (Q_loop c B_t tau l (identity_matrix c))"

definition right_block :: "nat \<Rightarrow> matrix \<Rightarrow> matrix" where
  \<comment> \<open>\<open>A2\<close>: \<open>col_cntr / 2\<close> columns wide, filled from column \<open>size2 / 2\<close> of \<open>_A\<close> on.\<close>
  "right_block c M =
     \<lparr>size1 = size1 M, size2 = c div 2,
      elem = (\<lambda>iraw j. if iraw < size1 M \<and> j + size2 M div 2 < size2 M
                        then elem M iraw (j + size2 M div 2) else 0)\<rparr>"

definition constrained_x :: "gsl_ops \<Rightarrow> fm_state \<Rightarrow> matrix \<times> real list" where
  \<comment> \<open>The constrained branch: the new \<open>_A\<close> and the new \<open>_x\<close>. The GSL view of the
      transposed constraint matrix has the sizes \<open>col_cntr\<close> and \<open>line_cntr\<close>, which are the
      sizes \<open>BeginCG\<close> gave that matrix.\<close>
  "constrained_x gsl st =
     (let c = nat (col_cntr st); l = nat (line_cntr st);
          B_constr_Tr = trans_mat (B_constr st);
          (B_t, tau) = QR_decomp gsl B_constr_Tr;
          Q = extract_Q c l B_t tau;
          A' = prec_prod (A_mat st) Q;
          A2 = right_block c A';
          (m, tau2) = QR_decomp gsl A2;
          x = QR_lssolve gsl m tau2 (take (size1 A2) (b_vec st));
          half = length (x_vec st) div 2;
          x0 = replicate half 0 @ map (\<lambda>i. x ! (i - half)) [half..<length (x_vec st)]
      in (A', prec_prod_vec Q x0))"

definition simple_x :: "gsl_ops \<Rightarrow> fm_state \<Rightarrow> real list" where
  "simple_x gsl st =
     (let (m, tau) = QR_decomp gsl (A_mat st);
          x = QR_lssolve gsl m tau (b_vec st)
      in map (\<lambda>i. x ! i) [0..<length (x_vec st)])"

fun accumulate_loop ::
  "spline_ops \<Rightarrow> SplineInfo \<Rightarrow> nat \<Rightarrow> nat \<Rightarrow> real \<Rightarrow> real list \<times> real list \<times> out_item list
     \<Rightarrow> real list \<times> real list \<times> out_item list" where
  \<comment> \<open>The loop over the output grid: \<open>cnt\<close> more iterations, the next one at index \<open>i\<close>
      and abscissa \<open>out_x\<close>.\<close>
  "accumulate_loop ops s 0 i out_x acc = acc"
| "accumulate_loop ops s (Suc cnt) i out_x (rs, rs2, pr) =
     (let val = Calculate ops (Spline s) out_x
      in accumulate_loop ops s cnt (Suc i) (out_x + del_x_out s)
           (rs[i := rs ! i + val], rs2[i := rs2 ! i + val * val],
            if i = 23 then pr @ [Num val] else pr))"

definition accumulate_spline ::
  "spline_ops \<Rightarrow> real list \<Rightarrow> SplineInfo \<Rightarrow> SplineInfo \<times> out_item list" where
  "accumulate_spline ops xv s =
     (let br = map (\<lambda>i. xv ! nat (int i + matr_pos s)) [0..<nat (2 * (n s + 1))];
          s1 = s\<lparr>block_res := br, Spline := setSplineData (Spline s) (map Finite br)\<rparr>;
          (rs, rs2, pr) = accumulate_loop ops s1 (nat (res_output_coeff s1 * (n s1 + 1))) 0
                            (getGridPoint ops (Spline s1) 0) (resSum s1, resSum2 s1, [])
      in (s1\<lparr>resSum := rs, resSum2 := rs2\<rparr>, pr))"

fun accumulate_splines ::
  "spline_ops \<Rightarrow> real list \<Rightarrow> SplineInfo list \<Rightarrow> SplineInfo list \<times> out_item list" where
  "accumulate_splines ops xv [] = ([], [])"
| "accumulate_splines ops xv (s # ss) =
     (let (s', pr) = accumulate_spline ops xv s;
          (ss', pr') = accumulate_splines ops xv ss
      in (s' # ss', pr @ pr'))"

definition FmatchAccumulateData :: "spline_ops \<Rightarrow> gsl_ops \<Rightarrow> fm_state \<Rightarrow> fm_state" where
  "FmatchAccumulateData ops gsl st =
     (let st1 = (if ConstrLeastSQ st
                 then (let (A', xv) = constrained_x gsl st in st\<lparr>A_mat := A', x_vec := xv\<rparr>)
                 else st\<lparr>x_vec := simple_x gsl st\<rparr>);
          (ss, pr) = accumulate_splines ops (x_vec st1) (Splines st1)
      in st1\<lparr>Splines := ss, cout := cout st1 @ pr\<rparr>)"

section \<open>EvalConfiguration\<close>

datatype fm_error = ModuloByZero | BufferOverflow

definition c_mod :: "int \<Rightarrow> int \<Rightarrow> int" where
  \<comment> \<open>C++ \<open>%\<close> on a non-zero divisor: the remainder of the division truncated towards
      zero, with the sign of the dividend.\<close>
  "c_mod a d = sgn a * (\<bar>a\<bar> mod \<bar>d\<bar>)"

definition sample_frame ::
  "spline_ops \<Rightarrow> topology_ops \<Rightarrow> fm_state \<Rightarrow> frame \<Rightarrow> fm_state" where
  \<comment> \<open>\<open>EvalConfiguration\<close> up to and including \<open>L += 1\<close>.\<close>
  "sample_frame ops tops st conf =
     (let st1 = eval_splines ops tops conf (Splines st) st;
          st2 = (if HasF conf
                 then st1\<lparr>b_vec := forces_loop st1 conf (nat (N st1)) (b_vec st1)\<rparr>
                 else st1\<lparr>cout := cout st1 @ [Text ''ERROR: No forces in configuration!'']\<rparr>)
      in st2\<lparr>L := L st2 + 1\<rparr>)"

definition finish_block :: "spline_ops \<Rightarrow> gsl_ops \<Rightarrow> fm_state \<Rightarrow> fm_state" where
  \<comment> \<open>The body of \<open>if (L % N_frames == 0)\<close>.\<close>
  "finish_block ops gsl st =
     (let st1 = FmatchAccumulateData ops gsl (st\<lparr>BlockNum := BlockNum st + 1\<rparr>);
          st2 = st1\<lparr>cout := cout st1 @ [Text ''Block No'', IntNum (BlockNum st1), Text '' done!''],
                    L := 0\<rparr>
      in if ConstrLeastSQ st2
         then st2\<lparr>A_mat := mclear (A_mat st2),
                  b_vec := replicate (length (b_vec st2)) 0,
                  B_constr := FmatchAssignSmoothCondsToMatrix ops (Splines st2) (B_constr st2)\<rparr>
         else st2\<lparr>A_mat := FmatchAssignSmoothCondsToMatrix ops (Splines st2) (A_mat st2),
                  b_vec := replicate (length (b_vec st2)) 0\<rparr>)"

definition EvalConfiguration ::
  "spline_ops \<Rightarrow> topology_ops \<Rightarrow> gsl_ops \<Rightarrow> fm_state \<Rightarrow> frame \<Rightarrow> fm_error + fm_state" where
  "EvalConfiguration ops tops gsl st conf =
     (let st1 = sample_frame ops tops st conf
      in if N_frames st1 = 0 then Inl ModuloByZero
         else if c_mod (L st1) (N_frames st1) = 0 then Inr (finish_block ops gsl st1)
         else Inr st1)"

fun run ::
  "spline_ops \<Rightarrow> topology_ops \<Rightarrow> gsl_ops \<Rightarrow> fm_state \<Rightarrow> frame list \<Rightarrow> fm_error + fm_state" where
  \<comment> \<open>The frames of a trajectory, one call of \<open>EvalConfiguration\<close> each.\<close>
  "run ops tops gsl st [] = Inr st"
| "run ops tops gsl st (conf # confs) =
     (case EvalConfiguration ops tops gsl st conf of
        Inl e \<Rightarrow> Inl e
      | Inr st' \<Rightarrow> run ops tops gsl st' confs)"

section \<open>EndCG\<close>

datatype out_line = Comment string int | Row real fval fval

definition make_file_name :: "string \<Rightarrow> fm_error + string" where
  \<comment> \<open>\<open>strcpy\<close> and \<open>strcat\<close> into \<open>char file_name[20]\<close>: the name, the suffix and the
      terminating zero have to fit; writing past the buffer is undefined behaviour.\<close>
  "make_file_name name =
     (if length name + length ''.force'' < 20 then Inr (name @ ''.force'')
      else Inl BufferOverflow)"

fun means_loop ::
  "int \<Rightarrow> SplineInfo \<Rightarrow> nat \<Rightarrow> nat \<Rightarrow> fval list \<times> fval list \<times> out_item list
     \<Rightarrow> fval list \<times> fval list \<times> out_item list" where
  \<comment> \<open>The first loop of \<open>EndCG\<close>: \<open>cnt\<close> more iterations, the next one at index \<open>i\<close>.\<close>
  "means_loop bn s 0 i acc = acc"
| "means_loop bn s (Suc cnt) i (res, err, pr) =
     (let r = fdiv (resSum s ! i) bn;
          e = fsqrt (fsub (fdiv (resSum2 s ! i) bn) (fmul r r))
      in means_loop bn s cnt (Suc i)
           (res[i := r], err[i := e], if i = 23 then pr @ [NumF r] else pr))"

fun rows_loop :: "SplineInfo \<Rightarrow> nat \<Rightarrow> nat \<Rightarrow> real \<Rightarrow> out_line list \<Rightarrow> out_line list" where
  \<comment> \<open>The second loop of \<open>EndCG\<close>, appending one line per output grid point.\<close>
  "rows_loop s 0 i out_x ls = ls"
| "rows_loop s (Suc cnt) i out_x ls =
     rows_loop s cnt (Suc i) (out_x + del_x_out s)
       (ls @ [Row out_x (fneg (result s ! i)) (error s ! i)])"

definition EndCG_spline ::
  "spline_ops \<Rightarrow> int \<Rightarrow> SplineInfo \<Rightarrow> fm_error + (SplineInfo \<times> (string \<times> out_line list) \<times> out_item list)" where
  "EndCG_spline ops bn s =
     (case make_file_name (splineName s) of
        Inl e \<Rightarrow> Inl e
      | Inr file_name \<Rightarrow>
         (let cnt = nat (res_output_coeff s * (n s + 1));
              (res, err, pr) = means_loop bn s cnt 0 (result s, error s, []);
              s1 = s\<lparr>result := res, error := err\<rparr>;
              s2 = s1\<lparr>Spline := setSplineData (Spline s1) (result s1)\<rparr>;
              ls = rows_loop s2 cnt 0 (getGridPoint ops (Spline s2) 0)
                     [Comment ''# interaction No. '' (splineIndex s2)]
          in Inr (s2, (file_name, ls), pr)))"

fun EndCG_splines ::
  "spline_ops \<Rightarrow> int \<Rightarrow> SplineInfo list
     \<Rightarrow> fm_error + (SplineInfo list \<times> (string \<times> out_line list) list \<times> out_item list)" where
  "EndCG_splines ops bn [] = Inr ([], [], [])"
| "EndCG_splines ops bn (s # ss) =
     (case EndCG_spline ops bn s of
        Inl e \<Rightarrow> Inl e
      | Inr (s', f, pr) \<Rightarrow>
         (case EndCG_splines ops bn ss of
            Inl e \<Rightarrow> Inl e
          | Inr (ss', fs, pr') \<Rightarrow> Inr (s' # ss', f # fs, pr @ pr')))"

definition EndCG ::
  "spline_ops \<Rightarrow> fm_state \<Rightarrow> fm_error + (fm_state \<times> (string \<times> out_line list) list)" where
  \<comment> \<open>The final state and the files written, each with its name and its lines.\<close>
  "EndCG ops st =
     (case EndCG_splines ops (BlockNum st) (Splines st) of
        Inl e \<Rightarrow> Inl e
      | Inr (ss, fs, pr) \<Rightarrow> Inr (st\<lparr>Splines := ss, cout := cout st @ pr\<rparr>, fs))"

section \<open>Notions used in the statements\<close>

definition coef_range :: "SplineInfo \<Rightarrow> int set" where
  \<comment> \<open>The coefficient indices of a channel: \<open>[matr_pos, matr_pos + 2 (n + 1))\<close>.\<close>
  "coef_range s = {matr_pos s ..< matr_pos s + 2 * (n s + 1)}"

definition geometry ::
  "SplineInfo \<Rightarrow> (int \<times> int \<times> int \<times> real \<times> string \<times> int) \<times> (nat \<times> nat \<times> nat \<times> nat)" where
  \<comment> \<open>What the constructor fixes for a channel, and the sizes of its four vectors over
      the output grid.\<close>
  "geometry s = ((matr_pos s, n s, res_output_coeff s, del_x_out s, splineName s, splineIndex s),
                 (length (result s), length (error s), length (resSum s), length (resSum2 s)))"

definition layout ::
  "fm_state \<Rightarrow> (int \<times> int \<times> int \<times> bool \<times> int \<times> int)
                 \<times> ((int \<times> int \<times> int \<times> real \<times> string \<times> int) \<times> (nat \<times> nat \<times> nat \<times> nat)) list" where
  \<comment> \<open>What is fixed at channel registration.\<close>
  "layout st = ((line_cntr st, col_cntr st, N_frames st, ConstrLeastSQ st, N st, LeastSQOffset st),
                map geometry (Splines st))"

fun chained :: "int \<Rightarrow> SplineInfo list \<Rightarrow> int \<Rightarrow> bool" where
  "chained lo [] hi = (lo = hi)"
| "chained lo (s # ss) hi =
     (matr_pos s = lo \<and> 0 \<le> n s + 1 \<and> chained (lo + 2 * (n s + 1)) ss hi)"

definition mean_at :: "int \<Rightarrow> SplineInfo \<Rightarrow> nat \<Rightarrow> fval" where
  \<comment> \<open>\<open>resSum[i] / BlockNum\<close>\<close>
  "mean_at bn s i = fdiv (resSum s ! i) bn"

definition error_at :: "int \<Rightarrow> SplineInfo \<Rightarrow> nat \<Rightarrow> fval" where
  \<comment> \<open>\<open>sqrt(resSum2[i] / BlockNum - mean * mean)\<close>\<close>
  "error_at bn s i =
     fsqrt (fsub (fdiv (resSum2 s ! i) bn) (fmul (mean_at bn s i) (mean_at bn s i)))"

definition no_force_message :: out_item where
  "no_force_message = Text ''ERROR: No forces in configuration!''"




definition mm :: "nat \<Rightarrow> (nat \<Rightarrow> nat \<Rightarrow> real) \<Rightarrow> (nat \<Rightarrow> nat \<Rightarrow> real) \<Rightarrow> nat \<Rightarrow> nat \<Rightarrow> real" where
  \<comment> \<open>The product of two arrays of entries over the inner indices below \<open>c\<close>.\<close>
  "mm c F G = (\<lambda>i j. \<Sum>k<c. F i k * G k j)"

fun reflector_product :: "nat \<Rightarrow> matrix \<Rightarrow> real list \<Rightarrow> nat \<Rightarrow> matrix" where
  \<comment> \<open>\<open>Q_1 Q_2 \<dots> Q_l\<close>, the orthogonal factor that the packed factorisation encodes.\<close>
  "reflector_product c B_t tau 0 = identity_matrix c"
| "reflector_product c B_t tau (Suc k) =
     prec_prod (reflector_product c B_t tau k) (Q_k c B_t tau (Suc k))"

definition QR_contract :: "nat \<Rightarrow> nat \<Rightarrow> matrix \<Rightarrow> matrix \<Rightarrow> real list \<Rightarrow> bool" where
  \<comment> \<open>What \<open>gsl_linalg_QR_decomp\<close> returns for a matrix \<open>M\<close> with \<open>c\<close> rows and \<open>l\<close>
      columns: the factor \<open>R\<close> on and above the diagonal of the result, and, below the
      diagonal and in \<open>tau\<close>, the reflectors of an orthogonal \<open>Q\<close> with \<open>M = Q R\<close>.\<close>
  "QR_contract c l M B_t tau \<longleftrightarrow>
     (\<forall>i<c. \<forall>j<l. elem M i j =
        (\<Sum>k<c. elem (reflector_product c B_t tau l) i k * (if k \<le> j then elem B_t k j else 0)))
     \<and> (\<forall>m<c. \<forall>k<c.
          (\<Sum>j<c. elem (reflector_product c B_t tau l) j m * elem (reflector_product c B_t tau l) j k)
            = (if m = k then 1 else 0))"

definition householder :: "nat \<Rightarrow> real \<Rightarrow> (nat \<Rightarrow> real) \<Rightarrow> matrix" where
  \<comment> \<open>The reflector \<open>I - \<tau> v v\<^sup>t\<close>.\<close>
  "householder c t v =
     \<lparr>size1 = c, size2 = c, elem = (\<lambda>i j. (if i = j then 1 else 0) - t * (v i * v j))\<rparr>"

definition Q_spec :: "nat \<Rightarrow> nat \<Rightarrow> matrix \<Rightarrow> real list \<Rightarrow> matrix" where
  \<comment> \<open>The reflectors multiplied up from the last index to the first, then transposed.\<close>
  "Q_spec c l B_t tau =
     trans_mat (foldl prec_prod (identity_matrix c)
              (map (\<lambda>k. householder c (tau ! (k - 1)) (householder_v B_t k)) (rev [1..<Suc l])))"

definition constrained_spec ::
  "gsl_ops \<Rightarrow> nat \<Rightarrow> nat \<Rightarrow> matrix \<Rightarrow> real list \<Rightarrow> matrix \<Rightarrow> real list" where
  \<comment> \<open>The constrained solve in the words of the specification: factor the transposed
      constraint matrix, rebuild \<open>Q\<close>, form \<open>A Q\<close>, keep the second block of columns, solve
      it by least squares, and return \<open>Q [0; x_free]\<close>.\<close>
  "constrained_spec gsl c l A bv B =
     (let (B_t, tau) = QR_decomp gsl (trans_mat B);
          Q = Q_spec c l B_t tau;
          AQ = prec_prod A Q;
          (m, tau2) = QR_decomp gsl (right_block c AQ);
          x_free = QR_lssolve gsl m tau2 (take (size1 A) bv)
      in prec_prod_vec Q (replicate (c div 2) 0 @ map (\<lambda>j. x_free ! j) [0..<c - c div 2]))"

definition expected_lines :: "spline_ops \<Rightarrow> int \<Rightarrow> SplineInfo \<Rightarrow> out_line list" where
  \<comment> \<open>The lines of a force file as the specification describes them: the header with the
      channel index, then per output grid point the abscissa, the negated mean and the
      error.\<close>
  "expected_lines ops bn s =
     Comment ''# interaction No. '' (splineIndex s) #
     map (\<lambda>k. Row (getGridPoint ops (setSplineData (Spline s)
                       (map (mean_at bn s) [0..<nat (res_output_coeff s * (n s + 1))])) 0
                     + real k * del_x_out s)
                   (fneg (mean_at bn s k)) (error_at bn s k))
         [0..<nat (res_output_coeff s * (n s + 1))]"

definition sized :: "SplineInfo \<Rightarrow> bool" where
  "sized s \<longleftrightarrow> length (result s) = nat (res_output_coeff s * (n s + 1))
             \<and> length (error s) = nat (res_output_coeff s * (n s + 1))
             \<and> length (resSum s) = nat (res_output_coeff s * (n s + 1))
             \<and> length (resSum2 s) = nat (res_output_coeff s * (n s + 1))"

definition basis_weight :: "spline_ops \<Rightarrow> CubicSpline \<Rightarrow> real \<Rightarrow> int \<Rightarrow> nat \<Rightarrow> real" where
  \<comment> \<open>The basis value of the spline at \<open>var\<close> that belongs to column \<open>col\<close> of the design
      matrix, for a channel whose columns start at \<open>mpos\<close>.\<close>
  "basis_weight ops sp var mpos col =
     (\<Sum>(c, w)\<leftarrow>fit_basis ops sp var. if nat (mpos + int c) = col then w else 0)"

definition frame_base :: "fm_state \<Rightarrow> int" where
  \<comment> \<open>The first row of the current frame: \<open>LeastSQOffset + 3 * N * L\<close>.\<close>
  "frame_base st = LeastSQOffset st + 3 * N st * L st"

definition bead_sample :: "int \<Rightarrow> int \<Rightarrow> int \<Rightarrow> vec \<Rightarrow> real \<Rightarrow> nat \<Rightarrow> real" where
  \<comment> \<open>What a bead with gradient \<open>g\<close> contributes to row \<open>r\<close>, axis by axis, for the basis
      weight \<open>w\<close>: the x component in the row of the bead, the y component \<open>nb\<close> rows
      further and the z component \<open>2 nb\<close> rows further.\<close>
  "bead_sample base nb bead g w r =
     (if r = nat (base + bead) then w * vx g else 0)
     + (if r = nat (base + nb + bead) then w * vy g else 0)
     + (if r = nat (base + 2 * nb + bead) then w * vz g else 0)"

definition nb_list :: "frame \<Rightarrow> SplineInfo \<Rightarrow> pair list" where
  \<comment> \<open>The pairs within the cutoff \<open>fmatch.max\<close> of the channel, for one bead type or two.\<close>
  "nb_list conf sinfo =
     (if type1 sinfo = type2 sinfo
      then NBL_one_type conf (fmatch_max (options sinfo)) (type1 sinfo)
      else NBL_two_types conf (fmatch_max (options sinfo)) (type1 sinfo) (type2 sinfo))"

definition pair_sample ::
  "spline_ops \<Rightarrow> topology_ops \<Rightarrow> int \<Rightarrow> int \<Rightarrow> SplineInfo \<Rightarrow> pair \<Rightarrow> nat \<Rightarrow> nat \<Rightarrow> real" where
  \<comment> \<open>What a non-bonded pair contributes to entry \<open>(r, col)\<close>: the contribution of the
      first bead and, with the opposite sign, the same contribution for the second.\<close>
  "pair_sample ops tops base nb sinfo pr r col =
     (let g = normalize tops (pair_r pr);
          w = basis_weight ops (Spline sinfo) (dist pr) (matr_pos sinfo) col
      in bead_sample base nb (first_id pr) g w r - bead_sample base nb (second_id pr) g w r)"

section \<open>A small run, used to instantiate the theorems\<close>

definition ops_ex :: spline_ops where
  "ops_ex = \<lparr>GenerateGrid = (\<lambda>lo hi h. [lo, hi]),
            getGridPoint = (\<lambda>sp i. grid sp ! nat i),
            Calculate = (\<lambda>sp x. case spline_data sp of Finite a # _ \<Rightarrow> a | _ \<Rightarrow> 0),
            fit_basis = (\<lambda>sp var. [(0, 1 - var), (1, var)]),
            AddBCToFitMatrix = (\<lambda>sp M r c. madd M (nat r) (nat c) 1)\<rparr>"

definition tops_ex :: topology_ops where
  "tops_ex = \<lparr>normalize = (\<lambda>v. v)\<rparr>"

definition gsl_ex :: gsl_ops where
  "gsl_ex = \<lparr>QR_decomp = (\<lambda>M. (M, [])), QR_lssolve = (\<lambda>m tau bv. [1, 2, 3, 4])\<rparr>"

definition channel_ex :: Property where
  "channel_ex = \<lparr>opt_name = ''CG-CG'', opt_type1 = ''A'', opt_type2 = ''A'',
                fmatch_min = 0, fmatch_max = 1, fmatch_step = 1,
                fmatch_res_output_coeff = 1\<rparr>"

definition cfg_ex :: fm_config where
  "cfg_ex = \<lparr>frames_per_block = 1, constrainedLS = False, cfg_bonded = [],
            cfg_nonbonded = [channel_ex], BeadCount = 2,
            junk = (\<lambda>i j. 0), junk_b = (\<lambda>i. 0)\<rparr>"

definition st_ex :: fm_state where
  "st_ex = \<lparr>BlockNum = 0, line_cntr = 0, col_cntr = 0, N_frames = 0, ConstrLeastSQ = False,
           Splines = [], N = 0, L = 0, LeastSQOffset = 0,
           B_constr = \<lparr>size1 = 0, size2 = 0, elem = (\<lambda>i j. 0)\<rparr>,
           A_mat = \<lparr>size1 = 0, size2 = 0, elem = (\<lambda>i j. 0)\<rparr>,
           b_vec = [], x_vec = [], cout = []\<rparr>"

definition frame_ex :: frame where
  "frame_ex = \<lparr>HasF = True, getF = (\<lambda>i. (1, 0, 0)),
              InteractionsInGroup = (\<lambda>g. []),
              NBL_one_type = (\<lambda>cut t. [\<lparr>first_id = 0, second_id = 1, dist = 1 / 2,
                                           pair_r = (1, 0, 0)\<rparr>]),
              NBL_two_types = (\<lambda>cut t t'. [])\<rparr>"

definition channel_long :: Property where
  \<comment> \<open>An interaction whose name has 14 characters.\<close>
  "channel_long = channel_ex\<lparr>opt_name := ''bond-CG1-CG2-A''\<rparr>"

definition cfg_long :: fm_config where
  "cfg_long = cfg_ex\<lparr>cfg_nonbonded := [channel_long]\<rparr>"

definition channel_b :: Property where
  \<comment> \<open>A bonded interaction.\<close>
  "channel_b = channel_ex\<lparr>opt_name := ''bond''\<rparr>"

definition cfg_two :: fm_config where
  \<comment> \<open>Two channels, one bonded and one non-bonded, and blocks of two frames.\<close>
  "cfg_two = cfg_ex\<lparr>frames_per_block := 2, cfg_bonded := [channel_b]\<rparr>"

section \<open>Properties of channel registration\<close>

lemma register_splines_counters:
  "col_cntr st = 2 * line_cntr st \<Longrightarrow>
   col_cntr (register_splines ops bd ps st) = 2 * line_cntr (register_splines ops bd ps st)"
  by (induction ps arbitrary: st) (simp_all add: Let_def)

lemma BeginCG_counters:
  "col_cntr (BeginCG ops cfg st0) = 2 * line_cntr (BeginCG ops cfg st0)"
proof -
  let ?st1 = "st0\<lparr>BlockNum := 0, line_cntr := 0, col_cntr := 0,
                    N_frames := frames_per_block cfg, ConstrLeastSQ := constrainedLS cfg\<rparr>"
  let ?st3 = "register_splines ops False (cfg_nonbonded cfg)
                (register_splines ops True (cfg_bonded cfg) ?st1)"
  have "col_cntr ?st3 = 2 * line_cntr ?st3"
    by (intro register_splines_counters) simp
  then show ?thesis
    by (simp add: BeginCG_def Let_def)
qed

lemma accumulate_loop_length:
  "accumulate_loop ops s cnt i x0 (rs, rs2, pr) = (rs', rs2', pr') \<Longrightarrow>
   length rs' = length rs \<and> length rs2' = length rs2"
  by (induction cnt arbitrary: i x0 rs rs2 pr) (auto simp: Let_def)

lemma accumulate_spline_geometry: "geometry (fst (accumulate_spline ops xv s)) = geometry s"
proof -
  let ?br = "map (\<lambda>i. xv ! nat (int i + matr_pos s)) [0..<nat (2 * (n s + 1))]"
  let ?s1 = "s\<lparr>block_res := ?br, Spline := setSplineData (Spline s) (map Finite ?br)\<rparr>"
  obtain rs rs2 pr where
    a: "accumulate_loop ops ?s1 (nat (res_output_coeff ?s1 * (n ?s1 + 1))) 0
          (getGridPoint ops (Spline ?s1) 0) (resSum ?s1, resSum2 ?s1, []) = (rs, rs2, pr)"
    using prod_cases3 by blast
  from accumulate_loop_length[OF a] have "length rs = length (resSum s)" "length rs2 = length (resSum2 s)"
    by simp_all
  moreover have "fst (accumulate_spline ops xv s) = ?s1\<lparr>resSum := rs, resSum2 := rs2\<rparr>"
    using a by (simp add: accumulate_spline_def Let_def)
  ultimately show ?thesis by (simp add: geometry_def)
qed

lemma accumulate_splines_geometry:
  "accumulate_splines ops xv ss = (ss', pr) \<Longrightarrow> map geometry ss' = map geometry ss"
proof (induction ss arbitrary: ss' pr)
  case Nil
  then show ?case by simp
next
  case (Cons s ss)
  obtain s1 p1 where a: "accumulate_spline ops xv s = (s1, p1)" by fastforce
  obtain ss1 p2 where b: "accumulate_splines ops xv ss = (ss1, p2)" by fastforce
  have "geometry s1 = geometry s" using accumulate_spline_geometry[of ops xv s] a by simp
  moreover have "map geometry ss1 = map geometry ss" using Cons.IH[OF b] .
  moreover have "ss' = s1 # ss1" using Cons.prems a b by simp
  ultimately show ?case by simp
qed

lemma eval_splines_keeps:
  "\<exists>M. eval_splines ops tops conf ss st = st\<lparr>A_mat := M\<rparr>"
proof (induction ss arbitrary: st)
  case Nil
  have "st = st\<lparr>A_mat := A_mat st\<rparr>" by simp
  then show ?case by (metis eval_splines.simps(1))
next
  case (Cons s ss)
  let ?st1 = "if bonded s then EvalBonded ops st conf s else EvalNonbonded ops tops st conf s"
  obtain M1 where m1: "?st1 = st\<lparr>A_mat := M1\<rparr>"
    by (cases "bonded s") (simp_all add: EvalBonded_def EvalNonbonded_def Let_def)
  obtain M where "eval_splines ops tops conf ss ?st1 = ?st1\<lparr>A_mat := M\<rparr>"
    using Cons.IH by blast
  then have "eval_splines ops tops conf (s # ss) st = st\<lparr>A_mat := M\<rparr>"
    using m1 by simp
  then show ?case by blast
qed

lemma layout_sample_frame: "layout (sample_frame ops tops st conf) = layout st"
proof -
  obtain M where "eval_splines ops tops conf (Splines st) st = st\<lparr>A_mat := M\<rparr>"
    using eval_splines_keeps by blast
  then show ?thesis by (simp add: sample_frame_def layout_def Let_def)
qed

lemma layout_FmatchAccumulateData: "layout (FmatchAccumulateData ops gsl st) = layout st"
  by (auto simp add: FmatchAccumulateData_def layout_def Let_def split: prod.splits
           dest: accumulate_splines_geometry)

lemma layout_finish_block: "layout (finish_block ops gsl st) = layout st"
proof -
  have "layout (FmatchAccumulateData ops gsl (st\<lparr>BlockNum := BlockNum st + 1\<rparr>)) = layout st"
    by (simp add: layout_FmatchAccumulateData) (simp add: layout_def)
  then show ?thesis
    by (simp add: finish_block_def Let_def layout_def)
qed

lemma layout_EvalConfiguration:
  "EvalConfiguration ops tops gsl st conf = Inr st' \<Longrightarrow> layout st' = layout st"
  by (auto simp: EvalConfiguration_def Let_def layout_finish_block layout_sample_frame split: if_splits)

lemma layout_run: "run ops tops gsl st confs = Inr st' \<Longrightarrow> layout st' = layout st"
  by (induction confs arbitrary: st) (auto split: sum.splits dest: layout_EvalConfiguration)

lemma SplineInfo_new_n: "0 \<le> n (SplineInfo_new ops i bd mp p) + 1"
  by (simp add: SplineInfo_new_def Let_def)

lemma SplineInfo_new_matr_pos: "matr_pos (SplineInfo_new ops i bd mp p) = mp"
  by (simp add: SplineInfo_new_def Let_def)

lemma chained_append:
  "chained lo (xs @ ys) hi \<longleftrightarrow> (\<exists>mid. chained lo xs mid \<and> chained mid ys hi)"
  by (induction xs arbitrary: lo) auto

lemma register_splines_chained:
  "chained lo (Splines st) (col_cntr st) \<Longrightarrow>
   chained lo (Splines (register_splines ops bd ps st)) (col_cntr (register_splines ops bd ps st))"
proof (induction ps arbitrary: st)
  case Nil
  then show ?case by simp
next
  case (Cons p ps)
  let ?i = "SplineInfo_new ops (int (length (Splines st))) bd (col_cntr st) p"
  have "chained lo (Splines st @ [?i]) (col_cntr st + 2 * (n ?i + 1))"
    using Cons.prems by (auto simp: chained_append SplineInfo_new_n SplineInfo_new_matr_pos)
  then show ?case using Cons.IH[of "st\<lparr>line_cntr := line_cntr st + (n ?i + 1),
               col_cntr := col_cntr st + 2 * (n ?i + 1),
               Splines := Splines st @ [?i]\<rparr>"] by (simp add: Let_def)
qed

lemma chained_le: "chained lo ss hi \<Longrightarrow> lo \<le> hi"
  by (induction ss arbitrary: lo) fastforce+

lemma chained_union: "chained lo ss hi \<Longrightarrow> (\<Union>s\<in>set ss. coef_range s) = {lo..<hi}"
proof (induction ss arbitrary: lo)
  case Nil
  then show ?case by simp
next
  case (Cons s ss)
  from Cons.prems have c: "chained (lo + 2 * (n s + 1)) ss hi" and m: "matr_pos s = lo" and p: "0 \<le> n s + 1" by auto
  from chained_le[OF c] have "lo + 2 * (n s + 1) \<le> hi" .
  with Cons.IH[OF c] m p show ?case by (auto simp: coef_range_def)
qed

lemma chained_disjoint:
  "chained lo ss hi \<Longrightarrow> i < length ss \<Longrightarrow> j < length ss \<Longrightarrow> i < j \<Longrightarrow>
   coef_range (ss ! i) \<inter> coef_range (ss ! j) = {}"
proof (induction ss arbitrary: lo i j)
  case Nil
  then show ?case by simp
next
  case (Cons s ss)
  from Cons.prems have c: "chained (lo + 2 * (n s + 1)) ss hi" and m: "matr_pos s = lo" and p: "0 \<le> n s + 1" by auto
  obtain j' where j: "j = Suc j'" using Cons.prems(4) by (cases j) auto
  show ?case
  proof (cases i)
    case 0
    have "ss ! j' \<in> set ss" using Cons.prems(3) j by simp
    then have "coef_range (ss ! j') \<subseteq> {lo + 2 * (n s + 1)..<hi}"
      using chained_union[OF c] by blast
    then show ?thesis using 0 j m by (auto simp: coef_range_def)
  next
    case (Suc i')
    then show ?thesis using Cons.IH[OF c, of i' j'] Cons.prems j by simp
  qed
qed

lemma chained_geometry:
  "map geometry ss' = map geometry ss \<Longrightarrow> chained lo ss hi \<Longrightarrow> chained lo ss' hi"
proof (induction ss arbitrary: ss' lo)
  case Nil
  then show ?case by simp
next
  case (Cons s ss)
  from Cons.prems(1) obtain t ts where t: "ss' = t # ts" by (cases ss') auto
  from Cons.prems(1) t have g: "geometry t = geometry s" and m: "map geometry ts = map geometry ss"
    by simp_all
  from g have e: "matr_pos t = matr_pos s" "n t = n s" by (simp_all add: geometry_def)
  from Cons.prems(2) have c: "chained (lo + 2 * (n s + 1)) ss hi"
    and q: "matr_pos s = lo" "0 \<le> n s + 1" by simp_all
  have "chained (lo + 2 * (n s + 1)) ts hi" using Cons.IH[OF m c] .
  then show ?case using t e q by simp
qed

lemma BeginCG_chained:
  assumes "Splines st0 = []"
  shows "chained 0 (Splines (BeginCG ops cfg st0)) (col_cntr (BeginCG ops cfg st0))"
proof -
  let ?st1 = "st0\<lparr>BlockNum := 0, line_cntr := 0, col_cntr := 0,
                    N_frames := frames_per_block cfg, ConstrLeastSQ := constrainedLS cfg\<rparr>"
  let ?st2 = "register_splines ops True (cfg_bonded cfg) ?st1"
  let ?st3 = "register_splines ops False (cfg_nonbonded cfg) ?st2"
  have "chained 0 (Splines ?st1) (col_cntr ?st1)" using assms by simp
  then have "chained 0 (Splines ?st2) (col_cntr ?st2)" by (rule register_splines_chained)
  then have "chained 0 (Splines ?st3) (col_cntr ?st3)" by (rule register_splines_chained)
  then show ?thesis by (simp add: BeginCG_def Let_def)
qed

lemma run_chained:
  assumes "Splines st0 = []" and "run ops tops gsl (BeginCG ops cfg st0) confs = Inr st"
  shows "chained 0 (Splines st) (col_cntr st)"
proof -
  from layout_run[OF assms(2)] have
    g: "map geometry (Splines st) = map geometry (Splines (BeginCG ops cfg st0))"
    and c: "col_cntr st = col_cntr (BeginCG ops cfg st0)"
    by (simp_all add: layout_def)
  show ?thesis using chained_geometry[OF g BeginCG_chained[OF assms(1)]] c by simp
qed

text \<open>
  Claim C5. After channel registration, and after any number of frames, the coefficient
  ranges \<open>[matr_pos, matr_pos + 2 (n + 1))\<close> of two distinct channels are disjoint, and
  together the ranges of all channels are exactly \<open>[0, col_cntr)\<close>.
\<close>

theorem C5_ranges_partition:
  assumes "Splines st0 = []"
    and "run ops tops gsl (BeginCG ops cfg st0) confs = Inr st"
  shows "(\<forall>i<length (Splines st). \<forall>j<length (Splines st). i \<noteq> j \<longrightarrow>
            coef_range (Splines st ! i) \<inter> coef_range (Splines st ! j) = {})
         \<and> (\<Union>s\<in>set (Splines st). coef_range s) = {0..<col_cntr st}"
proof -
  have ch: "chained 0 (Splines st) (col_cntr st)" using run_chained[OF assms] .
  have "coef_range (Splines st ! i) \<inter> coef_range (Splines st ! j) = {}"
    if "i < length (Splines st)" "j < length (Splines st)" "i \<noteq> j" for i j
  proof (cases "i < j")
    case True
    then show ?thesis using chained_disjoint[OF ch that(1) that(2)] by simp
  next
    case False
    then have "j < i" using that(3) by simp
    then show ?thesis using chained_disjoint[OF ch that(2) that(1)] by blast
  qed
  then show ?thesis using chained_union[OF ch] by blast
qed

lemma size2_Q_loop:
  "size2 Q = c \<Longrightarrow> size2 (Q_loop c B_t tau l Q) = c"
  by (induction l arbitrary: Q) (simp_all add: prec_prod_def Q_k_def mminus_def identity_matrix_def Let_def)

lemma length_constrained_x: "length (snd (constrained_x gsl st)) = nat (col_cntr st)"
  by (simp add: constrained_x_def Let_def prec_prod_vec_def extract_Q_def trans_mat_def
        size2_Q_loop identity_matrix_def split: prod.splits)

lemma length_simple_x: "length (simple_x gsl st) = length (x_vec st)"
  by (simp add: simple_x_def Let_def split: prod.splits)

lemma x_len_FmatchAccumulateData:
  "length (x_vec st) = nat (col_cntr st) \<Longrightarrow>
   length (x_vec (FmatchAccumulateData ops gsl st)) = nat (col_cntr st)"
  using length_constrained_x[of gsl st] length_simple_x[of gsl st]
  by (auto simp: FmatchAccumulateData_def Let_def split: prod.splits)

lemma x_vec_sample_frame: "x_vec (sample_frame ops tops st conf) = x_vec st"
proof -
  obtain M where "eval_splines ops tops conf (Splines st) st = st\<lparr>A_mat := M\<rparr>"
    using eval_splines_keeps by blast
  then show ?thesis by (simp add: sample_frame_def Let_def)
qed

lemma x_len_finish_block:
  "length (x_vec st) = nat (col_cntr st) \<Longrightarrow>
   length (x_vec (finish_block ops gsl st)) = nat (col_cntr st)"
  using x_len_FmatchAccumulateData[of "st\<lparr>BlockNum := BlockNum st + 1\<rparr>" ops gsl]
  by (simp add: finish_block_def Let_def)

lemma col_of_layout: "layout st' = layout st \<Longrightarrow> col_cntr st' = col_cntr st \<and> line_cntr st' = line_cntr st"
  by (simp add: layout_def)

lemma x_len_EvalConfiguration:
  assumes "EvalConfiguration ops tops gsl st conf = Inr st'"
    and "length (x_vec st) = nat (col_cntr st)"
  shows "length (x_vec st') = nat (col_cntr st')"
proof -
  let ?s1 = "sample_frame ops tops st conf"
  have c1: "col_cntr ?s1 = col_cntr st" using layout_sample_frame[of ops tops st conf] by (simp add: layout_def)
  have l1: "length (x_vec ?s1) = nat (col_cntr ?s1)" using assms(2) c1 by (simp add: x_vec_sample_frame)
  have c2: "col_cntr st' = col_cntr st" using layout_EvalConfiguration[OF assms(1)] by (simp add: layout_def)
  from assms(1) have "st' = ?s1 \<or> st' = finish_block ops gsl ?s1"
    by (auto simp: EvalConfiguration_def Let_def split: if_splits)
  then show ?thesis using l1 x_len_finish_block[OF l1, of ops gsl] c1 c2 by auto
qed

lemma x_len_run:
  "run ops tops gsl st confs = Inr st' \<Longrightarrow> length (x_vec st) = nat (col_cntr st) \<Longrightarrow>
   length (x_vec st') = nat (col_cntr st')"
proof (induction confs arbitrary: st)
  case Nil
  then show ?case by simp
next
  case (Cons conf confs)
  from Cons.prems(1) obtain s1 where e: "EvalConfiguration ops tops gsl st conf = Inr s1"
    and r: "run ops tops gsl s1 confs = Inr st'" by (auto split: sum.splits)
  show ?case using Cons.IH[OF r x_len_EvalConfiguration[OF e Cons.prems(2)]] .
qed

lemma x_len_BeginCG: "length (x_vec (BeginCG ops cfg st0)) = nat (col_cntr (BeginCG ops cfg st0))"
  by (simp add: BeginCG_def Let_def)

lemma register_splines_line_nonneg:
  "0 \<le> line_cntr st \<Longrightarrow> 0 \<le> line_cntr (register_splines ops bd ps st)"
proof (induction ps arbitrary: st)
  case Nil
  then show ?case by simp
next
  case (Cons p ps)
  let ?i = "SplineInfo_new ops (int (length (Splines st))) bd (col_cntr st) p"
  have "0 \<le> line_cntr st + (n ?i + 1)" using Cons.prems SplineInfo_new_n[of ops _ bd _ p] by (simp add: add_nonneg_nonneg)
  then show ?case using Cons.IH[of "st\<lparr>line_cntr := line_cntr st + (n ?i + 1),
               col_cntr := col_cntr st + 2 * (n ?i + 1),
               Splines := Splines st @ [?i]\<rparr>"] by (simp add: Let_def)
qed

text \<open>
  Claim C9. After channel registration, and after any number of frames, the column count
  is exactly twice the constraint-row count; the half of the coefficient vector that the
  constrained solver zeroes is therefore as long as the constraint matrix has rows.
\<close>

theorem C9_columns_twice_rows:
  assumes "run ops tops gsl (BeginCG ops cfg st0) confs = Inr st"
  shows "col_cntr st = 2 * line_cntr st
         \<and> col_cntr st div 2 = line_cntr st
         \<and> int (length (x_vec st) div 2) = line_cntr st"
proof -
  have lay: "col_cntr st = col_cntr (BeginCG ops cfg st0)" "line_cntr st = line_cntr (BeginCG ops cfg st0)"
    using layout_run[OF assms] by (simp_all add: layout_def)
  have c: "col_cntr st = 2 * line_cntr st" using BeginCG_counters[of ops cfg st0] lay by simp
  have x: "length (x_vec st) = nat (col_cntr st)" using x_len_run[OF assms x_len_BeginCG] .
  have "0 \<le> line_cntr (BeginCG ops cfg st0)"
  proof -
    let ?st1 = "st0\<lparr>BlockNum := 0, line_cntr := 0, col_cntr := 0,
                    N_frames := frames_per_block cfg, ConstrLeastSQ := constrainedLS cfg\<rparr>"
    have "0 \<le> line_cntr (register_splines ops False (cfg_nonbonded cfg)
                (register_splines ops True (cfg_bonded cfg) ?st1))"
      by (intro register_splines_line_nonneg) simp
    then show ?thesis by (simp add: BeginCG_def Let_def)
  qed
  then have "0 \<le> line_cntr st" using lay by simp
  then show ?thesis using c x by simp
qed

theorem C9_columns_twice_rows_witness:
  "col_cntr (BeginCG ops_ex cfg_ex st_ex) = 2 * line_cntr (BeginCG ops_ex cfg_ex st_ex)"
proof -
  have h: "run ops_ex tops_ex gsl_ex (BeginCG ops_ex cfg_ex st_ex) []
             = Inr (BeginCG ops_ex cfg_ex st_ex)" by simp
  from C9_columns_twice_rows [OF h] show ?thesis by (rule conjunct1)
qed

lemma means_loop_closed:
  "means_loop bn s cnt i (res, err, pr) = (res', err', pr') \<Longrightarrow>
   res' = map (\<lambda>k. if i \<le> k \<and> k < i + cnt then mean_at bn s k else res ! k) [0..<length res]
   \<and> err' = map (\<lambda>k. if i \<le> k \<and> k < i + cnt then error_at bn s k else err ! k) [0..<length err]"
proof (induction cnt arbitrary: i res err pr)
  case 0
  have f: "(i \<le> k \<and> k < i) = False" for k by auto
  from 0 show ?case by (simp add: f map_nth)
next
  case (Suc cnt)
  let ?r = "fdiv (resSum s ! i) bn"
  let ?e = "fsqrt (fsub (fdiv (resSum2 s ! i) bn) (fmul ?r ?r))"
  from Suc.prems have
    "means_loop bn s cnt (Suc i) (res[i := ?r], err[i := ?e], if i = 23 then pr @ [NumF ?r] else pr)
       = (res', err', pr')"
    by (simp add: Let_def)
  from Suc.IH[OF this] have
    r: "res' = map (\<lambda>k. if Suc i \<le> k \<and> k < Suc i + cnt then mean_at bn s k else res[i := ?r] ! k)
                [0..<length res]"
    and e: "err' = map (\<lambda>k. if Suc i \<le> k \<and> k < Suc i + cnt then error_at bn s k else err[i := ?e] ! k)
                [0..<length err]"
    by simp_all
  have eq: "x = i" if "\<not> Suc i \<le> x" "i \<le> x" for x using that by arith
  have "res' = map (\<lambda>k. if i \<le> k \<and> k < i + Suc cnt then mean_at bn s k else res ! k) [0..<length res]"
    unfolding r by (rule map_cong) (auto simp: mean_at_def nth_list_update dest: eq)
  moreover
  have "err' = map (\<lambda>k. if i \<le> k \<and> k < i + Suc cnt then error_at bn s k else err ! k) [0..<length err]"
    unfolding e by (rule map_cong) (auto simp: error_at_def mean_at_def nth_list_update dest: eq)
  ultimately show ?case by simp
qed

lemma upt_0_Suc: "[0..<Suc m] = 0 # map Suc [0..<m]"
  by (simp add: upt_conv_Cons map_Suc_upt del: upt_Suc)

lemma rows_loop_closed:
  "rows_loop s cnt i x0 ls =
     ls @ map (\<lambda>k. Row (x0 + real k * del_x_out s) (fneg (result s ! (i + k))) (error s ! (i + k)))
              [0..<cnt]"
proof (induction cnt arbitrary: i x0 ls)
  case 0
  then show ?case by simp
next
  case (Suc cnt)
  have "rows_loop s (Suc cnt) i x0 ls =
          rows_loop s cnt (Suc i) (x0 + del_x_out s) (ls @ [Row x0 (fneg (result s ! i)) (error s ! i)])"
    by simp
  also have "\<dots> = (ls @ [Row x0 (fneg (result s ! i)) (error s ! i)]) @
      map (\<lambda>k. Row (x0 + del_x_out s + real k * del_x_out s) (fneg (result s ! (Suc i + k)))
                    (error s ! (Suc i + k))) [0..<cnt]"
    by (rule Suc.IH)
  also have "\<dots> = ls @ map (\<lambda>k. Row (x0 + real k * del_x_out s) (fneg (result s ! (i + k)))
                    (error s ! (i + k))) [0..<Suc cnt]"
    unfolding upt_0_Suc by (simp add: comp_def algebra_simps)
  finally show ?case .
qed

lemma EndCG_spline_lines:
  assumes "sized s" and "length (splineName s) + 6 < 20"
  shows "\<exists>s' pr. EndCG_spline ops bn s = Inr (s', (splineName s @ ''.force'', expected_lines ops bn s), pr)
          \<and> result s' = map (mean_at bn s) [0..<nat (res_output_coeff s * (n s + 1))]
          \<and> error s' = map (error_at bn s) [0..<nat (res_output_coeff s * (n s + 1))]"
proof -
  let ?cnt = "nat (res_output_coeff s * (n s + 1))"
  obtain res err pr where m: "means_loop bn s ?cnt 0 (result s, error s, []) = (res, err, pr)"
    using prod_cases3 by blast
  from means_loop_closed[OF m] assms(1)
  have r: "res = map (mean_at bn s) [0..<?cnt]" and e: "err = map (error_at bn s) [0..<?cnt]"
    by (simp_all add: sized_def cong: map_cong)
  let ?s2 = "s\<lparr>result := res, error := err, Spline := setSplineData (Spline s) res\<rparr>"
  have f: "make_file_name (splineName s) = Inr (splineName s @ ''.force'')"
    using assms(2) by (simp add: make_file_name_def)
  have "rows_loop ?s2 ?cnt 0 (getGridPoint ops (Spline ?s2) 0)
          [Comment ''# interaction No. '' (splineIndex ?s2)] = expected_lines ops bn s"
    unfolding rows_loop_closed expected_lines_def r e by (simp cong: map_cong)
  then have "EndCG_spline ops bn s = Inr (?s2, (splineName s @ ''.force'', expected_lines ops bn s), pr)"
    using m f by (simp add: EndCG_spline_def Let_def)
  then show ?thesis using r e by auto
qed

lemma register_splines_keeps:
  "BlockNum (register_splines ops bd ps st) = BlockNum st
   \<and> L (register_splines ops bd ps st) = L st
   \<and> N_frames (register_splines ops bd ps st) = N_frames st
   \<and> ConstrLeastSQ (register_splines ops bd ps st) = ConstrLeastSQ st"
  by (induction ps arbitrary: st) (simp_all add: Let_def)

lemma BeginCG_start:
  "BlockNum (BeginCG ops cfg st0) = 0 \<and> L (BeginCG ops cfg st0) = 0
   \<and> N_frames (BeginCG ops cfg st0) = frames_per_block cfg
   \<and> ConstrLeastSQ (BeginCG ops cfg st0) = constrainedLS cfg"
  by (simp add: BeginCG_def Let_def register_splines_keeps)

lemma SplineInfo_new_sized: "sized (SplineInfo_new ops i bd mp p)"
  by (simp add: SplineInfo_new_def sized_def Let_def)

lemma register_splines_sized:
  "list_all sized (Splines st) \<Longrightarrow> list_all sized (Splines (register_splines ops bd ps st))"
proof (induction ps arbitrary: st)
  case Nil
  then show ?case by simp
next
  case (Cons p ps)
  let ?i = "SplineInfo_new ops (int (length (Splines st))) bd (col_cntr st) p"
  have "list_all sized (Splines st @ [?i])" using Cons.prems SplineInfo_new_sized by simp
  then show ?case using Cons.IH[of "st\<lparr>line_cntr := line_cntr st + (n ?i + 1),
               col_cntr := col_cntr st + 2 * (n ?i + 1),
               Splines := Splines st @ [?i]\<rparr>"] by (simp add: Let_def)
qed

lemma BeginCG_sized:
  assumes "Splines st0 = []"
  shows "list_all sized (Splines (BeginCG ops cfg st0))"
proof -
  let ?st1 = "st0\<lparr>BlockNum := 0, line_cntr := 0, col_cntr := 0,
                    N_frames := frames_per_block cfg, ConstrLeastSQ := constrainedLS cfg\<rparr>"
  have "list_all sized (Splines ?st1)" using assms by simp
  then have "list_all sized (Splines (register_splines ops False (cfg_nonbonded cfg)
                (register_splines ops True (cfg_bonded cfg) ?st1)))"
    by (intro register_splines_sized)
  then show ?thesis by (simp add: BeginCG_def Let_def)
qed

lemma sized_geometry: "geometry s' = geometry s \<Longrightarrow> sized s \<Longrightarrow> sized s'"
  by (simp add: geometry_def sized_def)

lemma list_all_sized_geometry:
  "map geometry ss' = map geometry ss \<Longrightarrow> list_all sized ss \<Longrightarrow> list_all sized ss'"
proof (induction ss arbitrary: ss')
  case Nil
  then show ?case by simp
next
  case (Cons s ss)
  from Cons.prems(1) obtain t ts where t: "ss' = t # ts" by (cases ss') auto
  from Cons.prems(1) t have g: "geometry t = geometry s" and m: "map geometry ts = map geometry ss"
    by simp_all
  show ?case using t sized_geometry[OF g] Cons.IH[OF m] Cons.prems(2) by simp
qed

lemma run_sized:
  assumes "Splines st0 = []" and "run ops tops gsl (BeginCG ops cfg st0) confs = Inr st"
  shows "list_all sized (Splines st)"
proof -
  from layout_run[OF assms(2)] have
    "map geometry (Splines st) = map geometry (Splines (BeginCG ops cfg st0))"
    by (simp add: layout_def)
  then show ?thesis using list_all_sized_geometry BeginCG_sized[OF assms(1)] by blast
qed

lemma EndCG_spline_Inr:
  assumes "EndCG_spline ops bn s = Inr (s', f, pr)" and "sized s"
  shows "f = (splineName s @ ''.force'', expected_lines ops bn s)"
proof -
  have "length (splineName s) + 6 < 20"
    using assms(1) by (auto simp: EndCG_spline_def make_file_name_def split: if_splits)
  from EndCG_spline_lines[OF assms(2) this, of ops bn] assms(1) show ?thesis by auto
qed

lemma EndCG_splines_files:
  "EndCG_splines ops bn ss = Inr (ss', fs, pr) \<Longrightarrow> list_all sized ss \<Longrightarrow>
   fs = map (\<lambda>s. (splineName s @ ''.force'', expected_lines ops bn s)) ss"
proof (induction ss arbitrary: ss' fs pr)
  case Nil
  then show ?case by simp
next
  case (Cons s ss)
  from Cons.prems(1) obtain s1 f p1 where a: "EndCG_spline ops bn s = Inr (s1, f, p1)"
    by (auto split: sum.splits)
  from Cons.prems(1) a obtain ss1 fs1 p2 where b: "EndCG_splines ops bn ss = Inr (ss1, fs1, p2)"
    by (auto split: sum.splits)
  from Cons.prems(1) a b have fs: "fs = f # fs1" by simp
  from Cons.prems(2) have sz: "sized s" "list_all sized ss" by simp_all
  show ?case using fs EndCG_spline_Inr[OF a sz(1)] Cons.IH[OF b sz(2)] by simp
qed

lemma EndCG_files:
  assumes "EndCG ops st = Inr (st', files)" and "list_all sized (Splines st)"
  shows "files = map (\<lambda>s. (splineName s @ ''.force'', expected_lines ops (BlockNum st) s)) (Splines st)"
proof -
  from assms(1) obtain ss pr where "EndCG_splines ops (BlockNum st) (Splines st) = Inr (ss, files, pr)"
    by (auto simp: EndCG_def split: sum.splits)
  from EndCG_splines_files[OF this assms(2)] show ?thesis .
qed

lemma sample_frame_fields:
  "\<exists>M bv co. sample_frame ops tops st conf = st\<lparr>A_mat := M, b_vec := bv, cout := co, L := L st + 1\<rparr>"
proof -
  obtain M where m: "eval_splines ops tops conf (Splines st) st = st\<lparr>A_mat := M\<rparr>"
    using eval_splines_keeps by blast
  show ?thesis
  proof (cases "HasF conf")
    case True
    have "sample_frame ops tops st conf =
       st\<lparr>A_mat := M, b_vec := forces_loop (st\<lparr>A_mat := M\<rparr>) conf (nat (N st)) (b_vec st),
          cout := cout st, L := L st + 1\<rparr>"
      using True m by (simp add: sample_frame_def Let_def)
    then show ?thesis by blast
  next
    case False
    have "sample_frame ops tops st conf =
       st\<lparr>A_mat := M, b_vec := b_vec st,
          cout := cout st @ [Text ''ERROR: No forces in configuration!''], L := L st + 1\<rparr>"
      using False m by (simp add: sample_frame_def Let_def)
    then show ?thesis by blast
  qed
qed

lemma c_mod_small: "0 \<le> a \<Longrightarrow> a < d \<Longrightarrow> c_mod a d = a"
  by (simp add: c_mod_def sgn_if)

lemma EvalConfiguration_accumulating:
  assumes "0 \<le> L st" and "L st + 1 < N_frames st"
  shows "EvalConfiguration ops tops gsl st conf = Inr (sample_frame ops tops st conf)"
proof -
  obtain M bv co where s: "sample_frame ops tops st conf
      = st\<lparr>A_mat := M, b_vec := bv, cout := co, L := L st + 1\<rparr>"
    using sample_frame_fields by blast
  have "c_mod (L st + 1) (N_frames st) = L st + 1" using assms by (intro c_mod_small) simp_all
  then show ?thesis using assms unfolding EvalConfiguration_def Let_def s by simp
qed

lemma run_accumulating:
  "0 \<le> L st \<Longrightarrow> L st + int (length confs) < N_frames st \<Longrightarrow>
   \<exists>st'. run ops tops gsl st confs = Inr st' \<and> BlockNum st' = BlockNum st
         \<and> L st' = L st + int (length confs)"
proof (induction confs arbitrary: st)
  case Nil
  then show ?case by simp
next
  case (Cons conf confs)
  let ?s1 = "sample_frame ops tops st conf"
  obtain M bv co where s: "?s1 = st\<lparr>A_mat := M, b_vec := bv, cout := co, L := L st + 1\<rparr>"
    using sample_frame_fields by blast
  have e: "EvalConfiguration ops tops gsl st conf = Inr ?s1"
    using Cons.prems by (intro EvalConfiguration_accumulating) simp_all
  have f: "L ?s1 = L st + 1" "N_frames ?s1 = N_frames st" "BlockNum ?s1 = BlockNum st"
    unfolding s by simp_all
  have "0 \<le> L ?s1" "L ?s1 + int (length confs) < N_frames ?s1"
    using Cons.prems f by simp_all
  from Cons.IH[OF this] obtain st' where "run ops tops gsl ?s1 confs = Inr st'"
    "BlockNum st' = BlockNum ?s1" "L st' = L ?s1 + int (length confs)" by blast
  then show ?case using e f by simp
qed

lemma mean_at_zero: "mean_at 0 s k = NonFinite"
  by (simp add: mean_at_def fdiv_def)

lemma error_at_zero: "error_at 0 s k = NonFinite"
  by (simp add: error_at_def mean_at_def fdiv_def)

lemma mean_at_nonzero: "bn \<noteq> 0 \<Longrightarrow> mean_at bn s k = Finite (resSum s ! k / real_of_int bn)"
  by (simp add: mean_at_def fdiv_def)

text \<open>
  Claim C10. \<open>EndCG\<close> divides by \<open>BlockNum\<close> unguarded. When fewer frames than one block
  were processed, \<open>BlockNum\<close> is still 0, and then the mean and the error of every line of
  every file are non-finite; with \<open>BlockNum\<close> different from 0 every mean is finite.
\<close>

theorem C10_no_block_no_mean:
  assumes "Splines st0 = []"
    and "run ops tops gsl (BeginCG ops cfg st0) confs = Inr st"
    and "EndCG ops st = Inr (st', files)"
  shows "(int (length confs) < frames_per_block cfg \<longrightarrow> BlockNum st = 0)
       \<and> (BlockNum st = 0 \<longrightarrow>
            (\<forall>(name, ls)\<in>set files. \<forall>x m e. Row x m e \<in> set ls \<longrightarrow> m = NonFinite \<and> e = NonFinite))
       \<and> (BlockNum st \<noteq> 0 \<longrightarrow>
            (\<forall>(name, ls)\<in>set files. \<forall>x m e. Row x m e \<in> set ls \<longrightarrow> m \<noteq> NonFinite))"
proof -
  let ?b = "BeginCG ops cfg st0"
  have files: "files = map (\<lambda>s. (splineName s @ ''.force'', expected_lines ops (BlockNum st) s)) (Splines st)"
    using EndCG_files[OF assms(3) run_sized[OF assms(1,2)]] .
  have 1: "BlockNum st = 0" if "int (length confs) < frames_per_block cfg"
  proof -
    have "0 \<le> L ?b" "L ?b + int (length confs) < N_frames ?b"
      using that BeginCG_start[of ops cfg st0] by simp_all
    from run_accumulating[OF this, of ops tops gsl] assms(2) BeginCG_start[of ops cfg st0]
    show ?thesis by auto
  qed
  have 2: "m = NonFinite \<and> e = NonFinite"
    if "BlockNum st = 0" "(name, ls) \<in> set files" "Row x m e \<in> set ls" for name ls x m e
  proof -
    from that(2) files obtain s where "ls = expected_lines ops (BlockNum st) s" by auto
    with that(1,3) show ?thesis
      by (auto simp: expected_lines_def mean_at_zero error_at_zero)
  qed
  have 3: "m \<noteq> NonFinite"
    if "BlockNum st \<noteq> 0" "(name, ls) \<in> set files" "Row x m e \<in> set ls" for name ls x m e
  proof -
    from that(2) files obtain s where "ls = expected_lines ops (BlockNum st) s" by auto
    with that(1,3) show ?thesis
      by (auto simp: expected_lines_def mean_at_nonzero)
  qed
  show ?thesis using 1 2 3 by blast
qed

lemma ex_spline: "SplineInfo_new ops_ex 0 False 0 channel_ex =
   \<lparr>splineIndex = 0, bonded = False, splineName = ''CG-CG'', type1 = ''A'', type2 = ''A'',
    options = channel_ex, n = 1, matr_pos = 0, res_output_coeff = 1,
    result = [Finite 0, Finite 0], error = [Finite 0, Finite 0],
    resSum = [0, 0], resSum2 = [0, 0], block_res = [0, 0, 0, 0],
    del_x_out = 1 / 2, Spline = \<lparr>grid = [0, 1], spline_data = []\<rparr>\<rparr>"
  by (simp add: SplineInfo_new_def ops_ex_def channel_ex_def Let_def numeral_eq_Suc)

lemma ex_splines: "Splines (BeginCG ops_ex cfg_ex st_ex) = [SplineInfo_new ops_ex 0 False 0 channel_ex]"
  by (simp add: BeginCG_def cfg_ex_def st_ex_def Let_def)

lemma ex_EndCG:
  "\<exists>st'. EndCG ops_ex (BeginCG ops_ex cfg_ex st_ex) =
     Inr (st', [(''CG-CG.force'', [Comment ''# interaction No. '' 0,
                                   Row 0 NonFinite NonFinite, Row (1 / 2) NonFinite NonFinite])])"
proof -
  have b: "BlockNum (BeginCG ops_ex cfg_ex st_ex) = 0" using BeginCG_start by blast
  show ?thesis
    unfolding EndCG_def ex_splines ex_spline b
    by (simp add: EndCG_spline_def make_file_name_def Let_def numeral_eq_Suc fdiv_def
          setSplineData_def ops_ex_def)
qed

theorem C10_no_block_no_mean_witness:
  "Splines st_ex = []
   \<and> run ops_ex tops_ex gsl_ex (BeginCG ops_ex cfg_ex st_ex) [] = Inr (BeginCG ops_ex cfg_ex st_ex)
   \<and> (\<exists>st'. EndCG ops_ex (BeginCG ops_ex cfg_ex st_ex) =
         Inr (st', [(''CG-CG.force'', [Comment ''# interaction No. '' 0,
                     Row 0 NonFinite NonFinite, Row (1 / 2) NonFinite NonFinite])]))
   \<and> BlockNum (BeginCG ops_ex cfg_ex st_ex) = 0"
proof -
  have h1: "Splines st_ex = []" by (simp add: st_ex_def)
  have h2: "run ops_ex tops_ex gsl_ex (BeginCG ops_ex cfg_ex st_ex) []
              = Inr (BeginCG ops_ex cfg_ex st_ex)" by simp
  obtain st' where h3: "EndCG ops_ex (BeginCG ops_ex cfg_ex st_ex) =
     Inr (st', [(''CG-CG.force'', [Comment ''# interaction No. '' 0,
                                   Row 0 NonFinite NonFinite, Row (1 / 2) NonFinite NonFinite])])"
    using ex_EndCG by blast
  have "int (length ([] :: frame list)) < frames_per_block cfg_ex" by (simp add: cfg_ex_def)
  with C10_no_block_no_mean [OF h1 h2 h3]
  have "BlockNum (BeginCG ops_ex cfg_ex st_ex) = 0" by blast
  with h1 h2 h3 show ?thesis by blast
qed

lemma accumulate_loop_closed:
  "accumulate_loop ops s cnt i x0 (rs, rs2, pr) = (rs', rs2', pr') \<Longrightarrow>
   rs' = map (\<lambda>k. if i \<le> k \<and> k < i + cnt
                   then rs ! k + Calculate ops (Spline s) (x0 + real (k - i) * del_x_out s)
                   else rs ! k) [0..<length rs]
   \<and> rs2' = map (\<lambda>k. if i \<le> k \<and> k < i + cnt
                   then rs2 ! k + Calculate ops (Spline s) (x0 + real (k - i) * del_x_out s)
                                  * Calculate ops (Spline s) (x0 + real (k - i) * del_x_out s)
                   else rs2 ! k) [0..<length rs2]"
proof (induction cnt arbitrary: i x0 rs rs2 pr)
  case 0
  have f: "(i \<le> k \<and> k < i) = False" for k by auto
  from 0 show ?case by (simp add: f map_nth)
next
  case (Suc cnt)
  let ?val = "Calculate ops (Spline s) x0"
  let ?c = "\<lambda>y. Calculate ops (Spline s) y"
  from Suc.prems have
    "accumulate_loop ops s cnt (Suc i) (x0 + del_x_out s)
       (rs[i := rs ! i + ?val], rs2[i := rs2 ! i + ?val * ?val],
        if i = 23 then pr @ [Num ?val] else pr) = (rs', rs2', pr')"
    by (simp add: Let_def)
  from Suc.IH[OF this] have
    r: "rs' = map (\<lambda>k. if Suc i \<le> k \<and> k < Suc i + cnt
                   then rs[i := rs ! i + ?val] ! k + ?c (x0 + del_x_out s + real (k - Suc i) * del_x_out s)
                   else rs[i := rs ! i + ?val] ! k) [0..<length rs]"
    and r2: "rs2' = map (\<lambda>k. if Suc i \<le> k \<and> k < Suc i + cnt
                   then rs2[i := rs2 ! i + ?val * ?val] ! k
                        + ?c (x0 + del_x_out s + real (k - Suc i) * del_x_out s)
                          * ?c (x0 + del_x_out s + real (k - Suc i) * del_x_out s)
                   else rs2[i := rs2 ! i + ?val * ?val] ! k) [0..<length rs2]"
    by simp_all
  have eq: "x = i" if "\<not> Suc i \<le> x" "i \<le> x" for x using that by arith
  have "rs' = map (\<lambda>k. if i \<le> k \<and> k < i + Suc cnt
                   then rs ! k + ?c (x0 + real (k - i) * del_x_out s)
                   else rs ! k) [0..<length rs]"
    unfolding r by (rule map_cong) (auto simp: nth_list_update algebra_simps dest: eq)
  moreover
  have "rs2' = map (\<lambda>k. if i \<le> k \<and> k < i + Suc cnt
                   then rs2 ! k + ?c (x0 + real (k - i) * del_x_out s) * ?c (x0 + real (k - i) * del_x_out s)
                   else rs2 ! k) [0..<length rs2]"
    unfolding r2 by (rule map_cong) (auto simp: nth_list_update algebra_simps dest: eq)
  ultimately show ?case by simp
qed

lemma accumulate_block:
  assumes "del_x_out s = d" and "\<forall>k<cnt. Calculate ops (Spline s) (x0 + real k * d) = v k"
  shows "\<exists>pr'. accumulate_loop ops s cnt 0 x0
            (map (\<lambda>k. a * v k) [0..<cnt], map (\<lambda>k. a * (v k * v k)) [0..<cnt], pr)
          = (map (\<lambda>k. (a + 1) * v k) [0..<cnt], map (\<lambda>k. (a + 1) * (v k * v k)) [0..<cnt], pr')"
proof -
  obtain rs' rs2' pr' where a: "accumulate_loop ops s cnt 0 x0
            (map (\<lambda>k. a * v k) [0..<cnt], map (\<lambda>k. a * (v k * v k)) [0..<cnt], pr) = (rs', rs2', pr')"
    using prod_cases3 by blast
  from accumulate_loop_closed[OF a] assms
  have "rs' = map (\<lambda>k. (a + 1) * v k) [0..<cnt]" "rs2' = map (\<lambda>k. (a + 1) * (v k * v k)) [0..<cnt]"
    by (simp_all add: algebra_simps cong: map_cong)
  with a show ?thesis by blast
qed

lemma accumulate_blocks:
  assumes "\<forall>s\<in>set ss. del_x_out s = d \<and> (\<forall>k<cnt. Calculate ops (Spline s) (x0 + real k * d) = v k)"
  shows "\<exists>pr'. fold (\<lambda>s. accumulate_loop ops s cnt 0 x0) ss
            (map (\<lambda>k. a * v k) [0..<cnt], map (\<lambda>k. a * (v k * v k)) [0..<cnt], pr)
          = (map (\<lambda>k. (a + real (length ss)) * v k) [0..<cnt],
             map (\<lambda>k. (a + real (length ss)) * (v k * v k)) [0..<cnt], pr')"
  using assms
proof (induction ss arbitrary: a pr)
  case Nil
  then show ?case by simp
next
  case (Cons s ss)
  from Cons.prems have s: "del_x_out s = d" "\<forall>k<cnt. Calculate ops (Spline s) (x0 + real k * d) = v k"
    and rest: "\<forall>s\<in>set ss. del_x_out s = d \<and> (\<forall>k<cnt. Calculate ops (Spline s) (x0 + real k * d) = v k)"
    by simp_all
  from accumulate_block[OF s, of a pr] obtain p1 where
    one: "accumulate_loop ops s cnt 0 x0
            (map (\<lambda>k. a * v k) [0..<cnt], map (\<lambda>k. a * (v k * v k)) [0..<cnt], pr)
          = (map (\<lambda>k. (a + 1) * v k) [0..<cnt], map (\<lambda>k. (a + 1) * (v k * v k)) [0..<cnt], p1)"
    by blast
  from Cons.IH[OF rest, of "a + 1" p1] obtain p2 where
    "fold (\<lambda>s. accumulate_loop ops s cnt 0 x0) ss
            (map (\<lambda>k. (a + 1) * v k) [0..<cnt], map (\<lambda>k. (a + 1) * (v k * v k)) [0..<cnt], p1)
          = (map (\<lambda>k. (a + 1 + real (length ss)) * v k) [0..<cnt],
             map (\<lambda>k. (a + 1 + real (length ss)) * (v k * v k)) [0..<cnt], p2)"
    by blast
  then show ?case using one by (simp add: add.assoc add.commute)
qed

text \<open>
  The sums of identical blocks in exact arithmetic. When every one of \<open>N \<ge> 1\<close> blocks
  evaluates the spline to the same value \<open>v k\<close> at output grid point \<open>k\<close>, the two loops
  give the mean \<open>v k\<close> and the error 0 there, provided sums, quotients and products are
  exact. The program computes them in IEEE doubles: there \<open>resSum2 / N\<close> and the square
  of \<open>resSum / N\<close> are rounded separately and need not agree (three blocks of the value
  0.1 give a negative difference, whose square root is not a number), so this lemma does
  not describe what the program writes for such blocks.
\<close>

lemma identical_blocks_exact_arithmetic:
  assumes "ss \<noteq> []"
    and "\<forall>s\<in>set ss. del_x_out s = d \<and> (\<forall>k<cnt. Calculate ops (Spline s) (x0 + real k * d) = v k)"
    and "fold (\<lambda>s. accumulate_loop ops s cnt 0 x0) ss (replicate cnt 0, replicate cnt 0, [])
           = (rs, rs2, pr)"
    and "means_loop (int (length ss)) (s0\<lparr>resSum := rs, resSum2 := rs2\<rparr>) cnt 0 (res, err, pr0)
           = (res', err', pr')"
    and "length res = cnt" and "length err = cnt" and "k < cnt"
  shows "err' ! k = Finite 0 \<and> res' ! k = Finite (v k)"
proof -
  have z: "replicate cnt (0::real) = map (\<lambda>k. 0 * v k) [0..<cnt]"
          "replicate cnt (0::real) = map (\<lambda>k. 0 * (v k * v k)) [0..<cnt]"
    by (simp_all add: map_replicate_const)
  from accumulate_blocks[OF assms(2), of 0 "[]"] assms(3)
  have rs: "rs = map (\<lambda>k. real (length ss) * v k) [0..<cnt]"
    and rs2: "rs2 = map (\<lambda>k. real (length ss) * (v k * v k)) [0..<cnt]"
    unfolding z[symmetric] by auto
  have nz: "int (length ss) \<noteq> 0" "real (length ss) \<noteq> 0" using assms(1) by simp_all
  let ?s = "s0\<lparr>resSum := rs, resSum2 := rs2\<rparr>"
  have r1: "resSum ?s ! k = real (length ss) * v k" using assms(7) by (simp add: rs)
  have r2: "resSum2 ?s ! k = real (length ss) * (v k * v k)" using assms(7) by (simp add: rs2)
  have m: "mean_at (int (length ss)) ?s k = Finite (v k)"
    unfolding mean_at_def r1 using nz by (simp add: fdiv_def)
  have e: "error_at (int (length ss)) ?s k = Finite 0"
    unfolding error_at_def m r2 using nz by (simp add: fdiv_def)
  from means_loop_closed[OF assms(4)] assms(5,6,7) m e show ?thesis by simp
qed

text \<open>
  Claim C4. \<open>EndCG\<close> builds the file name in \<open>char file_name[20]\<close>. For a channel whose
  name has 14 characters the name, the suffix \<open>.force\<close> and the terminating zero need 21
  bytes: \<open>strcat\<close> writes past the end of the buffer, which is undefined behaviour, so
  the source guarantees neither the file name nor the contents the claim describes.
  (For names of at most 13 characters \<open>EndCG_files\<close> gives the lines of the claim.)
\<close>

theorem C4_long_name_overflows_buffer:
  "EndCG ops_ex (BeginCG ops_ex cfg_long st_ex) = Inl BufferOverflow"
proof -
  have "Splines (BeginCG ops_ex cfg_long st_ex) = [SplineInfo_new ops_ex 0 False 0 channel_long]"
    by (simp add: BeginCG_def cfg_long_def cfg_ex_def st_ex_def Let_def)
  moreover have "splineName (SplineInfo_new ops_ex 0 False 0 channel_long) = ''bond-CG1-CG2-A''"
    by (simp add: SplineInfo_new_def channel_long_def Let_def)
  ultimately show ?thesis
    by (simp add: EndCG_def EndCG_spline_def make_file_name_def)
qed

lemma sample_frame_no_force:
  assumes "\<not> HasF conf"
  shows "sample_frame ops tops st conf =
           st\<lparr>A_mat := A_mat (eval_splines ops tops conf (Splines st) st),
              cout := cout st @ [no_force_message], L := L st + 1\<rparr>"
proof -
  obtain M where m: "eval_splines ops tops conf (Splines st) st = st\<lparr>A_mat := M\<rparr>"
    using eval_splines_keeps by blast
  show ?thesis using assms unfolding sample_frame_def Let_def m no_force_message_def by simp
qed

lemma c_mod_self: "c_mod d d = 0"
  by (simp add: c_mod_def)

lemma EvalConfiguration_solving:
  assumes "L st + 1 = N_frames st" and "0 \<le> L st"
  shows "EvalConfiguration ops tops gsl st conf
           = Inr (finish_block ops gsl (sample_frame ops tops st conf))"
proof -
  obtain M bv co where s: "sample_frame ops tops st conf
      = st\<lparr>A_mat := M, b_vec := bv, cout := co, L := L st + 1\<rparr>"
    using sample_frame_fields by blast
  have "c_mod (L st + 1) (N_frames st) = 0" using assms(1) by (simp add: c_mod_self)
  moreover have "N_frames st \<noteq> 0" using assms by linarith
  ultimately show ?thesis unfolding EvalConfiguration_def Let_def s by simp
qed

lemma accumulate_splines_state:
  "BlockNum (FmatchAccumulateData ops gsl st) = BlockNum st
   \<and> b_vec (FmatchAccumulateData ops gsl st) = b_vec st
   \<and> L (FmatchAccumulateData ops gsl st) = L st
   \<and> N_frames (FmatchAccumulateData ops gsl st) = N_frames st"
  by (simp add: FmatchAccumulateData_def Let_def split: prod.splits)

lemma finish_block_counters:
  "BlockNum (finish_block ops gsl st) = BlockNum st + 1
   \<and> L (finish_block ops gsl st) = 0
   \<and> N_frames (finish_block ops gsl st) = N_frames st
   \<and> b_vec (finish_block ops gsl st) = replicate (length (b_vec st)) 0"
  using accumulate_splines_state[of ops gsl "st\<lparr>BlockNum := BlockNum st + 1\<rparr>"]
  by (simp add: finish_block_def Let_def)

lemma EvalConfiguration_total:
  assumes "0 \<le> L st" and "L st < N_frames st"
  shows "\<exists>st'. EvalConfiguration ops tops gsl st conf = Inr st'
           \<and> 0 \<le> L st' \<and> L st' < N_frames st' \<and> N_frames st' = N_frames st"
proof (cases "L st + 1 = N_frames st")
  case True
  from EvalConfiguration_solving[OF True assms(1)] finish_block_counters[of ops gsl "sample_frame ops tops st conf"]
    layout_sample_frame[of ops tops st conf] assms
  show ?thesis by (auto simp: layout_def)
next
  case False
  then have lt: "L st + 1 < N_frames st" using assms by simp
  obtain M bv co where s: "sample_frame ops tops st conf
      = st\<lparr>A_mat := M, b_vec := bv, cout := co, L := L st + 1\<rparr>"
    using sample_frame_fields by blast
  show ?thesis using EvalConfiguration_accumulating[OF assms(1) lt, of ops tops gsl conf] assms lt
    unfolding s by simp
qed

lemma run_total:
  "0 \<le> L st \<Longrightarrow> L st < N_frames st \<Longrightarrow>
   \<exists>st'. run ops tops gsl st confs = Inr st' \<and> 0 \<le> L st' \<and> L st' < N_frames st'"
proof (induction confs arbitrary: st)
  case Nil
  then show ?case by simp
next
  case (Cons conf confs)
  from EvalConfiguration_total[OF Cons.prems, of ops tops gsl conf] obtain s1 where
    e: "EvalConfiguration ops tops gsl st conf = Inr s1" and l: "0 \<le> L s1" "L s1 < N_frames s1"
    by blast
  from Cons.IH[OF l] e show ?case by simp
qed

lemma reached_L:
  assumes "0 < frames_per_block cfg" and "run ops tops gsl (BeginCG ops cfg st0) confs = Inr st"
  shows "0 \<le> L st \<and> L st < N_frames st"
proof -
  have "0 \<le> L (BeginCG ops cfg st0)" "L (BeginCG ops cfg st0) < N_frames (BeginCG ops cfg st0)"
    using assms(1) BeginCG_start[of ops cfg st0] by simp_all
  from run_total[OF this, of ops tops gsl confs] assms(2) show ?thesis by auto
qed

text \<open>
  Claim C7. For a frame without forces, at any state of a run with a positive block size:
  the sampling part of \<open>EvalConfiguration\<close> changes only the design matrix, the output
  (the error message is appended) and the frame counter, which advances by one, so the
  right-hand side keeps its prior value; the call does not fail, and when the frame
  completes the block, the block is solved and counted, after which the right-hand side
  is zero.
\<close>

theorem C7_missing_forces_not_fatal:
  assumes "0 < frames_per_block cfg"
    and "run ops tops gsl (BeginCG ops cfg st0) confs = Inr st"
    and "\<not> HasF conf"
  shows "sample_frame ops tops st conf =
           st\<lparr>A_mat := A_mat (eval_splines ops tops conf (Splines st) st),
              cout := cout st @ [no_force_message], L := L st + 1\<rparr>
       \<and> EvalConfiguration ops tops gsl st conf =
           Inr (if L st + 1 = N_frames st then finish_block ops gsl (sample_frame ops tops st conf)
                else sample_frame ops tops st conf)
       \<and> BlockNum (finish_block ops gsl (sample_frame ops tops st conf)) = BlockNum st + 1
       \<and> b_vec (finish_block ops gsl (sample_frame ops tops st conf))
           = replicate (length (b_vec st)) 0"
proof -
  have l: "0 \<le> L st" "L st < N_frames st" using reached_L[OF assms(1,2)] by simp_all
  have s: "sample_frame ops tops st conf =
           st\<lparr>A_mat := A_mat (eval_splines ops tops conf (Splines st) st),
              cout := cout st @ [no_force_message], L := L st + 1\<rparr>"
    using sample_frame_no_force[OF assms(3)] .
  have e: "EvalConfiguration ops tops gsl st conf =
           Inr (if L st + 1 = N_frames st then finish_block ops gsl (sample_frame ops tops st conf)
                else sample_frame ops tops st conf)"
  proof (cases "L st + 1 = N_frames st")
    case True
    then show ?thesis using EvalConfiguration_solving[OF True l(1)] by simp
  next
    case False
    then have "L st + 1 < N_frames st" using l by simp
    then show ?thesis using EvalConfiguration_accumulating[OF l(1)] False by simp
  qed
  have "BlockNum (sample_frame ops tops st conf) = BlockNum st"
       "b_vec (sample_frame ops tops st conf) = b_vec st"
    unfolding s by simp_all
  then show ?thesis using s e finish_block_counters[of ops gsl "sample_frame ops tops st conf"]
    by simp
qed

theorem C7_missing_forces_not_fatal_witness:
  "EvalConfiguration ops_ex tops_ex gsl_ex (BeginCG ops_ex cfg_ex st_ex) (frame_ex\<lparr>HasF := False\<rparr>)
     = Inr (finish_block ops_ex gsl_ex
              (sample_frame ops_ex tops_ex (BeginCG ops_ex cfg_ex st_ex) (frame_ex\<lparr>HasF := False\<rparr>)))
   \<and> BlockNum (finish_block ops_ex gsl_ex
              (sample_frame ops_ex tops_ex (BeginCG ops_ex cfg_ex st_ex) (frame_ex\<lparr>HasF := False\<rparr>)))
       = 1"
proof -
  have h1: "0 < frames_per_block cfg_ex" by (simp add: cfg_ex_def)
  have h2: "run ops_ex tops_ex gsl_ex (BeginCG ops_ex cfg_ex st_ex) []
              = Inr (BeginCG ops_ex cfg_ex st_ex)" by simp
  have h3: "\<not> HasF (frame_ex\<lparr>HasF := False\<rparr>)" by simp
  have b: "L (BeginCG ops_ex cfg_ex st_ex) + 1 = N_frames (BeginCG ops_ex cfg_ex st_ex)"
          "BlockNum (BeginCG ops_ex cfg_ex st_ex) = 0"
    using BeginCG_start[of ops_ex cfg_ex st_ex] by (simp_all add: cfg_ex_def)
  note c = C7_missing_forces_not_fatal [OF h1 h2 h3]
  from c have e: "EvalConfiguration ops_ex tops_ex gsl_ex (BeginCG ops_ex cfg_ex st_ex)
                    (frame_ex\<lparr>HasF := False\<rparr>)
     = Inr (if L (BeginCG ops_ex cfg_ex st_ex) + 1 = N_frames (BeginCG ops_ex cfg_ex st_ex)
            then finish_block ops_ex gsl_ex
              (sample_frame ops_ex tops_ex (BeginCG ops_ex cfg_ex st_ex) (frame_ex\<lparr>HasF := False\<rparr>))
            else sample_frame ops_ex tops_ex (BeginCG ops_ex cfg_ex st_ex) (frame_ex\<lparr>HasF := False\<rparr>))"
    by (rule conjunct1 [OF conjunct2])
  from c have n: "BlockNum (finish_block ops_ex gsl_ex
              (sample_frame ops_ex tops_ex (BeginCG ops_ex cfg_ex st_ex) (frame_ex\<lparr>HasF := False\<rparr>)))
       = BlockNum (BeginCG ops_ex cfg_ex st_ex) + 1"
    by (rule conjunct1 [OF conjunct2 [OF conjunct2]])
  show ?thesis using e n b by simp
qed











lemma mm_assoc: "mm c (mm c F G) H = mm c F (mm c G H)"
proof (intro ext)
  fix i j
  have "mm c (mm c F G) H i j = (\<Sum>k<c. \<Sum>m<c. F i m * G m k * H k j)"
    by (simp add: mm_def sum_distrib_right)
  also have "\<dots> = (\<Sum>m<c. \<Sum>k<c. F i m * G m k * H k j)"
    by (rule sum.swap)
  also have "\<dots> = mm c F (mm c G H) i j"
    by (simp add: mm_def sum_distrib_left mult.assoc)
  finally show "mm c (mm c F G) H i j = mm c F (mm c G H) i j" .
qed

lemma elem_prec_prod: "elem (prec_prod M M') = mm (size2 M) (elem M) (elem M')"
  by (simp add: prec_prod_def mm_def)

lemma sizes_Q_k: "size1 (Q_k c B_t tau k) = c \<and> size2 (Q_k c B_t tau k) = c"
  by (simp add: Q_k_def Let_def mminus_def identity_matrix_def)

lemma Q_k_sym: "elem (Q_k c B_t tau k) i j = elem (Q_k c B_t tau k) j i"
  by (simp add: Q_k_def Let_def mminus_def mscale_def outer_prod_def identity_matrix_def mult.commute)

lemma sizes_reflector_product:
  "size1 (reflector_product c B_t tau l) = c \<and> size2 (reflector_product c B_t tau l) = c"
  by (induction l) (simp_all add: identity_matrix_def prec_prod_def sizes_Q_k)

lemma sizes_Q_loop:
  "size1 (Q_loop c B_t tau l Q) = size1 Q"
  by (induction l arbitrary: Q) (simp_all add: prec_prod_def)

lemma mm_identity_right:
  assumes "j < c"
  shows "mm c F (\<lambda>m j. elem (identity_matrix c) j m) i j = F i j"
proof -
  have "(\<Sum>k<c. F i k * (if j = k then 1 else 0)) = (\<Sum>k<c. if k = j then F i k else 0)"
    by (rule sum.cong) auto
  also have "\<dots> = F i j" using assms by simp
  finally show ?thesis by (simp add: mm_def identity_matrix_def)
qed

lemma reflector_product_Suc_trans:
  "(\<lambda>m j. elem (reflector_product c B_t tau (Suc l)) j m)
     = mm c (elem (Q_k c B_t tau (Suc l))) (\<lambda>m j. elem (reflector_product c B_t tau l) j m)"
proof (intro ext)
  fix m j
  have "elem (reflector_product c B_t tau (Suc l)) j m
          = (\<Sum>k<c. elem (reflector_product c B_t tau l) j k * elem (Q_k c B_t tau (Suc l)) k m)"
    by (simp add: prec_prod_def sizes_reflector_product)
  also have "\<dots> = (\<Sum>k<c. elem (Q_k c B_t tau (Suc l)) m k * elem (reflector_product c B_t tau l) j k)"
    by (rule sum.cong) (simp_all add: Q_k_sym[of c B_t tau "Suc l" m] mult.commute)
  finally show "elem (reflector_product c B_t tau (Suc l)) j m
      = mm c (elem (Q_k c B_t tau (Suc l))) (\<lambda>m j. elem (reflector_product c B_t tau l) j m) m j"
    by (simp add: mm_def)
qed

lemma Q_loop_product:
  "size2 Q = c \<Longrightarrow> j < c \<Longrightarrow>
   elem (Q_loop c B_t tau l Q) i j
     = mm c (elem Q) (\<lambda>m j. elem (reflector_product c B_t tau l) j m) i j"
proof (induction l arbitrary: Q)
  case 0
  then show ?case by (simp add: mm_identity_right)
next
  case (Suc l)
  let ?H = "Q_k c B_t tau (Suc l)"
  have sz: "size2 (prec_prod Q ?H) = c" by (simp add: prec_prod_def sizes_Q_k)
  have "elem (Q_loop c B_t tau (Suc l) Q) i j = elem (Q_loop c B_t tau l (prec_prod Q ?H)) i j"
    by simp
  also have "\<dots> = mm c (elem (prec_prod Q ?H)) (\<lambda>m j. elem (reflector_product c B_t tau l) j m) i j"
    using Suc.IH[OF sz Suc.prems(2)] .
  also have "\<dots> = mm c (mm c (elem Q) (elem ?H)) (\<lambda>m j. elem (reflector_product c B_t tau l) j m) i j"
    by (simp add: elem_prec_prod Suc.prems(1))
  also have "\<dots> = mm c (elem Q) (mm c (elem ?H) (\<lambda>m j. elem (reflector_product c B_t tau l) j m)) i j"
    by (simp add: mm_assoc)
  also have "\<dots> = mm c (elem Q) (\<lambda>m j. elem (reflector_product c B_t tau (Suc l)) j m) i j"
    by (simp only: reflector_product_Suc_trans)
  finally show ?case .
qed

lemma mm_identity_left:
  assumes "i < c"
  shows "mm c (elem (identity_matrix c)) F i j = F i j"
proof -
  have "(\<Sum>k<c. (if i = k then 1 else 0) * F k j) = (\<Sum>k<c. if k = i then F i j else 0)"
    by (rule sum.cong) auto
  also have "\<dots> = F i j" using assms by simp
  finally show ?thesis by (simp add: mm_def identity_matrix_def)
qed

lemma extract_Q_is_reflector_product:
  assumes "i < c" and "j < c"
  shows "elem (extract_Q c l B_t tau) i j = elem (reflector_product c B_t tau l) i j"
proof -
  have "elem (extract_Q c l B_t tau) i j = elem (Q_loop c B_t tau l (identity_matrix c)) j i"
    by (simp add: extract_Q_def trans_mat_def)
  also have "\<dots> = mm c (elem (identity_matrix c))
                      (\<lambda>m j. elem (reflector_product c B_t tau l) j m) j i"
    by (rule Q_loop_product) (simp_all add: identity_matrix_def assms)
  also have "\<dots> = elem (reflector_product c B_t tau l) i j"
    using assms(2) by (simp add: mm_identity_left)
  finally show ?thesis .
qed

lemma sizes_extract_Q: "size1 (extract_Q c l B_t tau) = c \<and> size2 (extract_Q c l B_t tau) = c"
  by (simp add: extract_Q_def trans_mat_def size2_Q_loop sizes_Q_loop identity_matrix_def)

lemma constraint_rows_annihilate:
  fixes Q R Bt :: "nat \<Rightarrow> nat \<Rightarrow> real" and z :: "nat \<Rightarrow> real"
  assumes fact: "\<And>j. j < c \<Longrightarrow> Bt j i = (\<Sum>m<c. Q j m * R m i)"
    and orth: "\<And>m k. m < c \<Longrightarrow> k < c \<Longrightarrow> (\<Sum>j<c. Q j m * Q j k) = (if m = k then 1 else 0)"
    and tri: "\<And>k. l \<le> k \<Longrightarrow> R k i = 0"
    and zero: "\<And>k. k < l \<Longrightarrow> z k = 0"
  shows "(\<Sum>j<c. Bt j i * (\<Sum>k<c. Q j k * z k)) = 0"
proof -
  have inner: "(\<Sum>j<c. Bt j i * Q j k) = R k i" if k: "k < c" for k
  proof -
    have "(\<Sum>j<c. Bt j i * Q j k) = (\<Sum>j<c. \<Sum>m<c. R m i * (Q j m * Q j k))"
    proof (rule sum.cong)
      fix j assume "j \<in> {..<c}"
      then have "Bt j i * Q j k = (\<Sum>m<c. Q j m * R m i) * Q j k" by (simp add: fact)
      also have "\<dots> = (\<Sum>m<c. Q j m * R m i * Q j k)" by (rule sum_distrib_right)
      also have "\<dots> = (\<Sum>m<c. R m i * (Q j m * Q j k))"
        by (rule sum.cong) (simp_all add: mult_ac)
      finally show "Bt j i * Q j k = (\<Sum>m<c. R m i * (Q j m * Q j k))" .
    qed simp
    also have "\<dots> = (\<Sum>m<c. \<Sum>j<c. R m i * (Q j m * Q j k))"
      by (rule sum.swap)
    also have "\<dots> = (\<Sum>m<c. R m i * (\<Sum>j<c. Q j m * Q j k))"
      by (simp add: sum_distrib_left)
    also have "\<dots> = (\<Sum>m<c. if m = k then R k i else 0)"
      by (rule sum.cong) (simp_all add: orth k)
    also have "\<dots> = R k i" using k by simp
    finally show ?thesis .
  qed
  have "(\<Sum>j<c. Bt j i * (\<Sum>k<c. Q j k * z k)) = (\<Sum>j<c. \<Sum>k<c. z k * (Bt j i * Q j k))"
  proof (rule sum.cong)
    fix j assume "j \<in> {..<c}"
    have "Bt j i * (\<Sum>k<c. Q j k * z k) = (\<Sum>k<c. Bt j i * (Q j k * z k))"
      by (rule sum_distrib_left)
    also have "\<dots> = (\<Sum>k<c. z k * (Bt j i * Q j k))"
      by (rule sum.cong) (simp_all add: mult_ac)
    finally show "Bt j i * (\<Sum>k<c. Q j k * z k) = (\<Sum>k<c. z k * (Bt j i * Q j k))" .
  qed simp
  also have "\<dots> = (\<Sum>k<c. \<Sum>j<c. z k * (Bt j i * Q j k))"
    by (rule sum.swap)
  also have "\<dots> = (\<Sum>k<c. z k * (\<Sum>j<c. Bt j i * Q j k))"
    by (simp add: sum_distrib_left)
  also have "\<dots> = (\<Sum>k<c. z k * R k i)"
    by (rule sum.cong) (simp_all add: inner)
  also have "\<dots> = 0"
  proof (rule sum.neutral, rule ballI)
    fix k assume "k \<in> {..<c}"
    show "z k * R k i = 0"
    proof (cases "k < l")
      case True
      then show ?thesis by (simp add: zero)
    next
      case False
      then show ?thesis by (simp add: tri)
    qed
  qed
  finally show ?thesis .
qed

lemma Q_k_householder:
  "Q_k c B_t tau k = householder c (tau ! (k - 1)) (householder_v B_t k)"
  by (simp add: Q_k_def householder_def Let_def mminus_def mscale_def outer_prod_def
        identity_matrix_def)

lemma Q_loop_foldl:
  "Q_loop c B_t tau l Q = foldl prec_prod Q (map (Q_k c B_t tau) (rev [1..<Suc l]))"
proof (induction l arbitrary: Q)
  case 0
  then show ?case by simp
next
  case (Suc l)
  have "rev [1..<Suc (Suc l)] = Suc l # rev [1..<Suc l]" by simp
  then show ?case using Suc.IH[of "prec_prod Q (Q_k c B_t tau (Suc l))"] by simp
qed

lemma extract_Q_spec: "extract_Q c l B_t tau = Q_spec c l B_t tau"
proof -
  have "Q_k c B_t tau = (\<lambda>k. householder c (tau ! (k - 1)) (householder_v B_t k))"
    by (rule ext) (rule Q_k_householder)
  then show ?thesis by (simp only: extract_Q_def Q_spec_def Q_loop_foldl)
qed

lemma shifted_entries:
  "map (\<lambda>i. xs ! (i - h)) [h..<len] = map (\<lambda>j. xs ! j) [0..<len - h]"
proof (rule nth_equalityI)
  show "length (map (\<lambda>i. xs ! (i - h)) [h..<len]) = length (map (\<lambda>j. xs ! j) [0..<len - h])"
    by simp
next
  fix i assume "i < length (map (\<lambda>i. xs ! (i - h)) [h..<len])"
  then show "map (\<lambda>i. xs ! (i - h)) [h..<len] ! i = map (\<lambda>j. xs ! j) [0..<len - h] ! i"
    by simp
qed

lemma constrained_x_spec:
  assumes "length (x_vec st) = nat (col_cntr st)"
  shows "snd (constrained_x gsl st)
           = constrained_spec gsl (nat (col_cntr st)) (nat (line_cntr st))
               (A_mat st) (b_vec st) (B_constr st)"
  using assms
  by (simp add: constrained_x_def constrained_spec_def Let_def extract_Q_spec shifted_entries
        right_block_def prec_prod_def split: prod.splits)

lemma constrained_x_annihilated:
  assumes qr: "QR_decomp gsl (trans_mat (B_constr st)) = (B_t, tau)"
    and con: "QR_contract (nat (col_cntr st)) (nat (line_cntr st)) (trans_mat (B_constr st)) B_t tau"
    and len: "length (x_vec st) = nat (col_cntr st)"
    and half: "nat (col_cntr st) = 2 * nat (line_cntr st)"
    and i: "i < nat (line_cntr st)"
  shows "(\<Sum>j<nat (col_cntr st). elem (B_constr st) i j * snd (constrained_x gsl st) ! j) = 0"
proof -
  let ?c = "nat (col_cntr st)" and ?l = "nat (line_cntr st)"
  let ?P = "elem (reflector_product ?c B_t tau ?l)"
  let ?Q = "extract_Q ?c ?l B_t tau"
  obtain x0 where x: "snd (constrained_x gsl st) = prec_prod_vec ?Q x0"
    and x0: "\<And>k. k < ?l \<Longrightarrow> x0 ! k = 0"
  proof -
    let ?A2 = "right_block ?c (prec_prod (A_mat st) ?Q)"
    obtain m tau2 where d: "QR_decomp gsl ?A2 = (m, tau2)" by fastforce
    let ?x = "QR_lssolve gsl m tau2 (take (size1 ?A2) (b_vec st))"
    let ?x0 = "replicate (?c div 2) 0 @ map (\<lambda>i. ?x ! (i - ?c div 2)) [?c div 2..<?c]"
    have "snd (constrained_x gsl st) = prec_prod_vec ?Q ?x0"
      using qr d len by (simp add: constrained_x_def Let_def)
    moreover have "?x0 ! k = 0" if "k < ?l" for k
      using that half by (simp add: nth_append)
    ultimately show ?thesis using that by blast
  qed
  have xj: "snd (constrained_x gsl st) ! j = (\<Sum>k<?c. ?P j k * x0 ! k)" if "j < ?c" for j
  proof -
    have "snd (constrained_x gsl st) ! j = (\<Sum>k<?c. elem ?Q j k * x0 ! k)"
      using that by (simp add: x prec_prod_vec_def sizes_extract_Q)
    also have "\<dots> = (\<Sum>k<?c. ?P j k * x0 ! k)"
      by (rule sum.cong) (simp_all add: extract_Q_is_reflector_product that)
    finally show ?thesis .
  qed
  have "(\<Sum>j<?c. elem (B_constr st) i j * snd (constrained_x gsl st) ! j)
          = (\<Sum>j<?c. elem (trans_mat (B_constr st)) j i * (\<Sum>k<?c. ?P j k * x0 ! k))"
    by (rule sum.cong) (simp_all add: xj trans_mat_def)
  also have "\<dots> = 0"
  proof (rule constraint_rows_annihilate[where l = ?l and R = "\<lambda>k j. if k \<le> j then elem B_t k j else 0"])
    fix j assume "j < ?c"
    then show "elem (trans_mat (B_constr st)) j i
                 = (\<Sum>m<?c. ?P j m * (if m \<le> i then elem B_t m i else 0))"
      using con i by (simp add: QR_contract_def)
  next
    fix m k assume "m < ?c" "k < ?c"
    then show "(\<Sum>j<?c. ?P j m * ?P j k) = (if m = k then 1 else 0)"
      using con by (simp add: QR_contract_def)
  next
    fix k assume "?l \<le> k"
    then show "(if k \<le> i then elem B_t k i else 0) = 0" using i by simp
  next
    fix k assume "k < ?l"
    then show "x0 ! k = 0" by (rule x0)
  qed
  finally show ?thesis .
qed

lemma madd_fold_size:
  "size1 (fold (\<lambda>(c, w) M'. madd M' R (nat (mpos + int c)) (w * scale)) xs M) = size1 M
   \<and> size2 (fold (\<lambda>(c, w) M'. madd M' R (nat (mpos + int c)) (w * scale)) xs M) = size2 M"
proof (induction xs arbitrary: M)
  case Nil
  then show ?case by simp
next
  case (Cons x xs)
  obtain c w where x: "x = (c, w)" by (cases x)
  have "size1 (madd M R (nat (mpos + int c)) (w * scale)) = size1 M"
       "size2 (madd M R (nat (mpos + int c)) (w * scale)) = size2 M"
    by (simp_all add: madd_def)
  then show ?case using Cons.IH[of "madd M R (nat (mpos + int c)) (w * scale)"] by (simp add: x)
qed

lemma madd_fold_elem:
  "elem (fold (\<lambda>(c, w) M'. madd M' R (nat (mpos + int c)) (w * scale)) xs M) r col
     = elem M r col
       + (if r = R then (\<Sum>(c, w)\<leftarrow>xs. if nat (mpos + int c) = col then w else 0) * scale else 0)"
proof (induction xs arbitrary: M)
  case Nil
  then show ?case by simp
next
  case (Cons x xs)
  obtain c w where x: "x = (c, w)" by (cases x)
  let ?f = "\<lambda>(c, w) M'. madd M' R (nat (mpos + int c)) (w * scale)"
  let ?M1 = "madd M R (nat (mpos + int c)) (w * scale)"
  have e: "elem ?M1 r col
             = elem M r col + (if r = R \<and> nat (mpos + int c) = col then w * scale else 0)"
    by (simp add: madd_def)
  have "elem (fold ?f (x # xs) M) r col = elem (fold ?f xs ?M1) r col"
    by (simp add: x)
  also have "\<dots> = elem ?M1 r col
       + (if r = R then (\<Sum>(c, w)\<leftarrow>xs. if nat (mpos + int c) = col then w else 0) * scale else 0)"
    by (rule Cons.IH)
  also have "\<dots> = elem M r col
       + (if r = R then (\<Sum>(c, w)\<leftarrow>x # xs. if nat (mpos + int c) = col then w else 0) * scale
          else 0)"
    unfolding e by (simp add: x algebra_simps)
  finally show ?case .
qed

lemma AddToFitMatrix_size:
  "size1 (AddToFitMatrix ops sp M var row mpos scale) = size1 M
   \<and> size2 (AddToFitMatrix ops sp M var row mpos scale) = size2 M"
  unfolding AddToFitMatrix_def by (rule madd_fold_size)

lemma AddToFitMatrix_elem:
  "elem (AddToFitMatrix ops sp M var row mpos scale) r col
     = elem M r col + (if r = nat row then basis_weight ops sp var mpos col * scale else 0)"
  unfolding AddToFitMatrix_def basis_weight_def by (rule madd_fold_elem)

lemma iatom_calls_elem:
  "elem (fit_calls ops sp var (iatom_calls st sinfo bead g) M) r col
     = elem M r col
       + bead_sample (frame_base st) (N st) bead g (basis_weight ops sp var (matr_pos sinfo) col) r"
  by (simp add: fit_calls_def iatom_calls_def Let_def AddToFitMatrix_elem bead_sample_def
        frame_base_def)

lemma jatom_calls_elem:
  "elem (fit_calls ops sp var (jatom_calls st sinfo bead g) M) r col
     = elem M r col
       - bead_sample (frame_base st) (N st) bead g (basis_weight ops sp var (matr_pos sinfo) col) r"
  by (simp add: fit_calls_def jatom_calls_def Let_def AddToFitMatrix_elem bead_sample_def
        frame_base_def)

lemma fit_calls_size:
  "size1 (fit_calls ops sp var calls M) = size1 M \<and> size2 (fit_calls ops sp var calls M) = size2 M"
  unfolding fit_calls_def
  by (induction calls arbitrary: M) (auto simp: AddToFitMatrix_size)

lemma nonbonded_loop_elem:
  "elem (nonbonded_loop ops tops st sinfo prs M) r col
     = elem M r col
       + (\<Sum>pr\<leftarrow>prs. pair_sample ops tops (frame_base st) (N st) sinfo pr r col)"
  by (induction prs arbitrary: M)
     (simp_all add: Let_def iatom_calls_elem jatom_calls_elem pair_sample_def)

lemma nonbonded_loop_size:
  "size1 (nonbonded_loop ops tops st sinfo prs M) = size1 M
   \<and> size2 (nonbonded_loop ops tops st sinfo prs M) = size2 M"
  by (induction prs arbitrary: M) (simp_all add: Let_def fit_calls_size)

text \<open>
  Claim C3. Whatever pairs the neighbour list holds, \<open>EvalNonbonded\<close> adds to every entry
  of the design matrix, for each pair, the contribution of the first bead (\<open>iatom\<close>) and
  the exact negative of the same contribution for the second bead (\<open>jatom\<close>): axis by
  axis the same basis weight times the same gradient component, in the rows of the
  second bead and with the opposite sign. Nothing else changes in the matrix.
\<close>

theorem C3_second_bead_negated:
  "elem (A_mat (EvalNonbonded ops tops st conf sinfo)) r col
     = elem (A_mat st) r col
       + (\<Sum>pr\<leftarrow>nb_list conf sinfo.
            bead_sample (frame_base st) (N st) (first_id pr) (normalize tops (pair_r pr))
              (basis_weight ops (Spline sinfo) (dist pr) (matr_pos sinfo) col) r
            - bead_sample (frame_base st) (N st) (second_id pr) (normalize tops (pair_r pr))
                (basis_weight ops (Spline sinfo) (dist pr) (matr_pos sinfo) col) r)
   \<and> size1 (A_mat (EvalNonbonded ops tops st conf sinfo)) = size1 (A_mat st)
   \<and> size2 (A_mat (EvalNonbonded ops tops st conf sinfo)) = size2 (A_mat st)"
  by (simp add: EvalNonbonded_def Let_def nb_list_def nonbonded_loop_elem nonbonded_loop_size
        pair_sample_def)

lemma two_splines:
  "Splines (BeginCG ops_ex cfg_two st_ex)
     = [SplineInfo_new ops_ex 0 True 0 channel_b, SplineInfo_new ops_ex 1 False 4 channel_ex]"
  by (simp add: BeginCG_def cfg_two_def cfg_ex_def st_ex_def Let_def SplineInfo_new_def
        ops_ex_def channel_ex_def channel_b_def)

lemma two_col: "col_cntr (BeginCG ops_ex cfg_two st_ex) = 8"
  by (simp add: BeginCG_def cfg_two_def cfg_ex_def st_ex_def Let_def SplineInfo_new_def
        ops_ex_def channel_ex_def channel_b_def)

lemma two_first_frame:
  "run ops_ex tops_ex gsl_ex (BeginCG ops_ex cfg_two st_ex) [frame_ex]
     = Inr (sample_frame ops_ex tops_ex (BeginCG ops_ex cfg_two st_ex) frame_ex)"
proof -
  have "0 \<le> L (BeginCG ops_ex cfg_two st_ex)"
       "L (BeginCG ops_ex cfg_two st_ex) + 1 < N_frames (BeginCG ops_ex cfg_two st_ex)"
    using BeginCG_start[of ops_ex cfg_two st_ex] by (simp_all add: cfg_two_def)
  from EvalConfiguration_accumulating[OF this] show ?thesis by simp
qed

theorem C5_ranges_partition_witness:
  "run ops_ex tops_ex gsl_ex (BeginCG ops_ex cfg_two st_ex) [frame_ex]
     = Inr (sample_frame ops_ex tops_ex (BeginCG ops_ex cfg_two st_ex) frame_ex)
   \<and> length (Splines (sample_frame ops_ex tops_ex (BeginCG ops_ex cfg_two st_ex) frame_ex)) = 2
   \<and> coef_range (Splines (sample_frame ops_ex tops_ex (BeginCG ops_ex cfg_two st_ex) frame_ex) ! 0)
       \<inter> coef_range (Splines (sample_frame ops_ex tops_ex (BeginCG ops_ex cfg_two st_ex) frame_ex) ! 1)
       = {}
   \<and> (\<Union>s\<in>set (Splines (sample_frame ops_ex tops_ex (BeginCG ops_ex cfg_two st_ex) frame_ex)).
         coef_range s) = {0..<8}"
proof -
  let ?S = "sample_frame ops_ex tops_ex (BeginCG ops_ex cfg_two st_ex) frame_ex"
  have h1: "Splines st_ex = []" by (simp add: st_ex_def)
  note h2 = two_first_frame
  have lay: "layout ?S = layout (BeginCG ops_ex cfg_two st_ex)" by (rule layout_sample_frame)
  have "length (map geometry (Splines ?S)) = length (map geometry (Splines (BeginCG ops_ex cfg_two st_ex)))"
    using lay by (simp add: layout_def)
  then have len: "length (Splines ?S) = 2" by (simp add: two_splines)
  have col: "col_cntr ?S = 8" using lay two_col by (simp add: layout_def)
  note c = C5_ranges_partition [OF h1 h2]
  from c have d: "\<forall>i<length (Splines ?S). \<forall>j<length (Splines ?S). i \<noteq> j \<longrightarrow>
            coef_range (Splines ?S ! i) \<inter> coef_range (Splines ?S ! j) = {}"
    by (rule conjunct1)
  from c have u: "(\<Union>s\<in>set (Splines ?S). coef_range s) = {0..<col_cntr ?S}"
    by (rule conjunct2)
  have "coef_range (Splines ?S ! 0) \<inter> coef_range (Splines ?S ! 1) = {}"
    using d len by simp
  with h2 len u col show ?thesis by simp
qed

end
